theory Spec2Isabelle
  imports Complex_Main "HOL-Library.Product_Lexorder"
begin

section \<open>Conventions\<close>

text \<open>
  The repository is four Python programs: the Event Miner (\<^verbatim>\<open>Jobs/GDELT Miner.py\<close>),
  the Rate Upsampler (\<^verbatim>\<open>Jobs/Upsample Rates.py\<close>), the orchestrator
  (\<^verbatim>\<open>Jobs/repo.py\<close>) and the dashboard (\<^verbatim>\<open>streamlitdashboard.py\<close>).

  \<^item> Python strings are HOL strings: a character is one of the code points 0 to 255.
    On these, \<open>isdigit\<close> is \<^verbatim>\<open>str.isdigit\<close> (the ten decimal digits and the
    superscripts two, three and one), \<open>isdecimal\<close> is the digits \<^verbatim>\<open>int\<close> accepts, and
    \<open>isspace\<close> is the white space \<^verbatim>\<open>str.strip\<close> removes. Code points above 255 are
    outside the model.
  \<^item> Floating-point columns (tone, price, scores) are idealised as \<open>real\<close>; a missing
    value (Python \<^verbatim>\<open>None\<close>, SQL \<^verbatim>\<open>NULL\<close>, pandas \<^verbatim>\<open>NaN\<close>) is \<open>None\<close>.
  \<^item> Random draws are explicit inputs: the Miner threads a generator state through its
    calls of \<^verbatim>\<open>random.gauss\<close>, the Upsampler receives the noise vector.
  \<^item> A calendar date is a triple (year, month, day) under the lexicographic order,
    which is the order of Python's \<^verbatim>\<open>datetime.date\<close>.
\<close>

type_synonym date = "nat \<times> nat \<times> nat"

section \<open>Event Miner\<close>

subsection \<open>String helpers of the Python runtime\<close>

text \<open>The decimal digits, which are the digits \<^verbatim>\<open>int\<close> reads.\<close>

definition isdecimal :: "char \<Rightarrow> bool" where
  "isdecimal ch = (ch \<in> set ''0123456789'')"

text \<open>
  \<^verbatim>\<open>ch.isdigit()\<close>: the decimal digits, and the superscript digits two (0xB2),
  three (0xB3) and one (0xB9).
\<close>

definition isdigit :: "char \<Rightarrow> bool" where
  "isdigit ch = (isdecimal ch \<or> ch \<in> set [CHR 0xB2, CHR 0xB3, CHR 0xB9])"

text \<open>
  The white space of \<^verbatim>\<open>str.strip\<close>: the space, the controls 0x09 to 0x0D and 0x1C to
  0x1F, the next-line control 0x85 and the no-break space 0xA0.
\<close>

definition isspace :: "char \<Rightarrow> bool" where
  "isspace ch = (ch \<in> set [CHR '' '', CHR 0x09, CHR 0x0A, CHR 0x0B, CHR 0x0C, CHR 0x0D,
                            CHR 0x1C, CHR 0x1D, CHR 0x1E, CHR 0x1F, CHR 0x85, CHR 0xA0])"

text \<open>\<^verbatim>\<open>s.strip()\<close>: leading and trailing white space removed.\<close>

definition strip :: "string \<Rightarrow> string" where
  "strip s = rev (dropWhile isspace (rev (dropWhile isspace s)))"

definition digit_val :: "char \<Rightarrow> nat" where
  "digit_val ch = of_char ch - 48"

text \<open>
  \<^verbatim>\<open>int(s)\<close> on the strings the Miner passes to it, whose characters all satisfy
  \<open>isdigit\<close>: the decimal value when the string is not empty and all its characters are
  decimal digits, and \<^verbatim>\<open>ValueError\<close> (\<open>None\<close>) on the empty string and on a string
  with a superscript digit.
\<close>

definition py_int :: "string \<Rightarrow> int option" where
  "py_int s =
     (if s = [] \<or> \<not> list_all isdecimal s then None
      else Some (int (foldl (\<lambda>acc ch. 10 * acc + digit_val ch) 0 s)))"

text \<open>
  A normalised CSV row (\<^verbatim>\<open>norm_row\<close>) is a dictionary from column names to cells.
  \<^verbatim>\<open>norm_row.get(k1) or norm_row.get(k2) or ...\<close> returns the first cell that is present
  and not the empty string; \<open>None\<close> stands for the falsy result of the whole chain.
\<close>

type_synonym norm_row = "string \<rightharpoonup> string"

fun first_truthy :: "norm_row \<Rightarrow> string list \<Rightarrow> string option" where
  "first_truthy r [] = None"
| "first_truthy r (k # ks) =
     (case r k of
        None \<Rightarrow> first_truthy r ks
      | Some v \<Rightarrow> if v = [] then first_truthy r ks else Some v)"

subsection \<open>\<^verbatim>\<open>parse_and_write\<close>\<close>

definition COUNTRY_CODE :: string where
  "COUNTRY_CODE = ''YEM''"

definition generate_global_event_id :: "int \<Rightarrow> int" where
  "generate_global_event_id counter = counter"

record 'f gdelt_row =
  GlobalEventID :: int
  Day :: int
  Country :: string
  Tone :: 'f
  SourceURL :: string

definition date_raw :: "norm_row \<Rightarrow> string" where
  "date_raw r = (case first_truthy r [''Date'', ''date'', ''DATE''] of Some v \<Rightarrow> v | None \<Rightarrow> [])"

text \<open>Keep only digits, take the first 8.\<close>

definition cleaned_date :: "string \<Rightarrow> string" where
  "cleaned_date raw = take 8 (filter isdigit raw)"

definition url_val :: "norm_row \<Rightarrow> string" where
  "url_val r = strip (case first_truthy r [''URL'', ''url'', ''Url''] of Some v \<Rightarrow> v | None \<Rightarrow> [])"

definition tone_str :: "norm_row \<Rightarrow> string option" where
  "tone_str r = first_truthy r [''Tone'', ''tone'', ''AvgTone'']"

text \<open>
  The tone of a row. \<open>pyfloat\<close> is Python's \<^verbatim>\<open>float\<close> (\<open>None\<close> for \<^verbatim>\<open>ValueError\<close>);
  \<open>gauss g mu sigma\<close> is \<^verbatim>\<open>random.gauss(mu, sigma)\<close> on the generator state \<open>g\<close>,
  returning the draw and the next state.
\<close>

definition tone_val ::
  "(string \<Rightarrow> 'f option) \<Rightarrow> ('g \<Rightarrow> real \<Rightarrow> real \<Rightarrow> 'f \<times> 'g) \<Rightarrow> norm_row \<Rightarrow> 'g \<Rightarrow> 'f \<times> 'g" where
  "tone_val pyfloat gauss r g =
     (case tone_str r of
        None \<Rightarrow> gauss g (- 5) 2
      | Some s \<Rightarrow>
          if strip s = [] then gauss g (- 5) 2
          else (case pyfloat s of Some v \<Rightarrow> (v, g) | None \<Rightarrow> gauss g (- 5) 2))"

text \<open>
  One pass of the loop body: \<open>None\<close> when the row is skipped by a \<^verbatim>\<open>continue\<close>,
  otherwise the row handed to \<^verbatim>\<open>writer.writerow\<close>.
\<close>

definition parse_row ::
  "(string \<Rightarrow> 'f option) \<Rightarrow> ('g \<Rightarrow> real \<Rightarrow> real \<Rightarrow> 'f \<times> 'g) \<Rightarrow> norm_row \<Rightarrow> int \<Rightarrow> 'g
     \<Rightarrow> 'f gdelt_row option \<times> 'g" where
  "parse_row pyfloat gauss r start_id g =
     (case py_int (cleaned_date (date_raw r)) of
        None \<Rightarrow> (None, g)
      | Some day_int \<Rightarrow>
          if url_val r = [] then (None, g)
          else
            (case tone_val pyfloat gauss r g of
               (tv, g') \<Rightarrow>
                 (Some \<lparr>GlobalEventID = generate_global_event_id start_id,
                        Day = day_int,
                        Country = COUNTRY_CODE,
                        Tone = tv,
                        SourceURL = url_val r\<rparr>, g')))"

text \<open>
  The loop over the rows of one response: the rows written so far, the identifier
  counter and the generator state are threaded through.
\<close>

fun parse_and_write ::
  "(string \<Rightarrow> 'f option) \<Rightarrow> ('g \<Rightarrow> real \<Rightarrow> real \<Rightarrow> 'f \<times> 'g) \<Rightarrow> norm_row list
     \<Rightarrow> 'f gdelt_row list \<Rightarrow> int \<Rightarrow> 'g \<Rightarrow> 'f gdelt_row list \<times> int \<times> 'g" where
  "parse_and_write pyfloat gauss [] written start_id g = (written, start_id, g)"
| "parse_and_write pyfloat gauss (r # rows) written start_id g =
     (case parse_row pyfloat gauss r start_id g of
        (None, g') \<Rightarrow> parse_and_write pyfloat gauss rows written start_id g'
      | (Some out, g') \<Rightarrow> parse_and_write pyfloat gauss rows (written @ [out]) (start_id + 1) g')"

section \<open>Rounding\<close>

text \<open>
  \<^verbatim>\<open>Series.round(2)\<close>, used by the Upsampler and the dashboard: scale by 100, round
  half to even, scale back.
\<close>

definition rint :: "real \<Rightarrow> int" where
  "rint x =
     (let f = \<lfloor>x\<rfloor>; r = x - of_int f
      in if r < 1 / 2 then f
         else if 1 / 2 < r then f + 1
         else if even f then f else f + 1)"

definition round2 :: "real \<Rightarrow> real" where
  "round2 x = of_int (rint (x * 100)) / 100"

section \<open>Rate Upsampler\<close>

subsection \<open>The weekly series\<close>

text \<open>
  pandas keeps a timestamp as a count since the epoch. The weekly anchors are calendar
  dates, read at midnight, so a timestamp of the Upsampler is a whole number of hours
  since 1970-01-01 00:00; \<open>hour_of_date\<close> is the timestamp of a date.
\<close>

definition days_from_civil :: "date \<Rightarrow> int" where
  "days_from_civil ymd =
     (case ymd of (y, m, d) \<Rightarrow>
        (let y' = int y - (if m \<le> 2 then 1 else 0);
             era = y' div 400;
             yoe = y' - era * 400;
             mp = (int m + 9) mod 12;
             doy = (153 * mp + 2) div 5 + int d - 1;
             doe = yoe * 365 + yoe div 4 - yoe div 100 + doy
         in era * 146097 + doe - 719468))"

definition hour_of_date :: "date \<Rightarrow> int" where
  "hour_of_date ymd = 24 * days_from_civil ymd"

text \<open>A row of \<^verbatim>\<open>rates.csv\<close>: the timestamp of \<^verbatim>\<open>Date\<close> and the \<^verbatim>\<open>Price\<close>.\<close>

type_synonym anchor = "int \<times> real"

subsection \<open>\<^verbatim>\<open>resample('h')\<close>\<close>

text \<open>
  The hourly index runs from the smallest to the largest timestamp of the series, both
  included. Upsampling reindexes the series on it: an hour that is an anchor keeps the
  anchor's price, every other hour is \<^verbatim>\<open>NaN\<close>; pandas refuses to reindex a series
  that has a timestamp twice.
\<close>

datatype upsample_error = DuplicateLabels

definition res_index :: "anchor list \<Rightarrow> int list" where
  "res_index df_rates =
     (if df_rates = [] then []
      else [Min (set (map fst df_rates)) .. Max (set (map fst df_rates))])"

definition asfreq :: "anchor list \<Rightarrow> upsample_error + real option list" where
  "asfreq df_rates =
     (if distinct (map fst df_rates) then Inr (map (map_of df_rates) (res_index df_rates))
      else Inl DuplicateLabels)"

subsection \<open>\<^verbatim>\<open>interpolate(method='linear')\<close>\<close>

text \<open>
  pandas interpolates over the positions: the valid points (position, value) are handed
  to \<^verbatim>\<open>numpy.interp\<close>, which evaluates the piecewise linear function through them and
  is constant outside them; the \<^verbatim>\<open>NaN\<close>s before the first valid point are kept, and a
  column without a valid point is left alone.
\<close>

fun valid_points :: "nat \<Rightarrow> real option list \<Rightarrow> (nat \<times> real) list" where
  "valid_points i [] = []"
| "valid_points i (None # ys) = valid_points (Suc i) ys"
| "valid_points i (Some v # ys) = (i, v) # valid_points (Suc i) ys"

fun np_interp :: "real \<Rightarrow> nat \<times> real \<Rightarrow> (nat \<times> real) list \<Rightarrow> real" where
  "np_interp x (i, a) [] = a"
| "np_interp x (i, a) ((j, b) # ps) =
     (if x \<le> real i then a
      else if x \<le> real j then a + (b - a) * (x - real i) / (real j - real i)
      else np_interp x (j, b) ps)"

definition interpolate_linear :: "real option list \<Rightarrow> real option list" where
  "interpolate_linear ys =
     (case valid_points 0 ys of
        [] \<Rightarrow> ys
      | p # ps \<Rightarrow>
          map (\<lambda>(k, y). case y of
                           Some v \<Rightarrow> Some v
                         | None \<Rightarrow> if k < fst p then None else Some (np_interp (real k) p ps))
              (enumerate 0 ys))"

text \<open>\<^verbatim>\<open>df_rates.resample('h').interpolate(method='linear')\<close>, with its index.\<close>

definition resample_interpolate :: "anchor list \<Rightarrow> upsample_error + (int \<times> real option) list" where
  "resample_interpolate df_rates =
     (case asfreq df_rates of
        Inl e \<Rightarrow> Inl e
      | Inr ys \<Rightarrow> Inr (zip (res_index df_rates) (interpolate_linear ys)))"

text \<open>
  Vocabulary for the interpolation: two anchors are adjacent when they are anchors of
  the series, the first earlier than the second, with no anchor of the series strictly
  between them; \<open>on_segment a b t\<close> is the value at the hour \<open>t\<close> of the straight line
  through the anchors \<open>a\<close> and \<open>b\<close>.
\<close>

definition on_segment :: "anchor \<Rightarrow> anchor \<Rightarrow> int \<Rightarrow> real" where
  "on_segment a b t =
     snd a + (snd b - snd a) * real_of_int (t - fst a) / real_of_int (fst b - fst a)"

definition adjacent :: "anchor list \<Rightarrow> anchor \<Rightarrow> anchor \<Rightarrow> bool" where
  "adjacent df_rates a b =
     (a \<in> set df_rates \<and> b \<in> set df_rates \<and> fst a < fst b
      \<and> (\<forall>c\<in>set df_rates. \<not> (fst a < fst c \<and> fst c < fst b)))"

subsection \<open>\<^verbatim>\<open>upsample_rates\<close>\<close>

record hourly_row =
  hourly_Date :: int
  hourly_Price :: "real option"
  hourly_Route :: string

text \<open>
  The noise vector \<^verbatim>\<open>np.random.normal(0, 5, len(df_hourly))\<close> is the input \<open>noise\<close>,
  read at the positions of the frame.
\<close>

definition add_noise :: "(nat \<Rightarrow> real) \<Rightarrow> (int \<times> real option) list \<Rightarrow> hourly_row list" where
  "add_noise noise df_hourly =
     map (\<lambda>(k, t, p). \<lparr>hourly_Date = t,
                       hourly_Price = map_option (\<lambda>v. round2 (v + noise k)) p,
                       hourly_Route = ''Shanghai-Rotterdam''\<rparr>)
         (enumerate 0 df_hourly)"

text \<open>
  The two files of the working directory, each absent or holding a table, and how the
  process ends: it runs to its end, leaves through \<^verbatim>\<open>sys.exit\<close>, or dies of an
  exception nobody catches.
\<close>

record files =
  rates_csv :: "anchor list option"
  upsampled_rates_csv :: "hourly_row list option"

datatype process_end = Completed | SysExit nat | Uncaught upsample_error

definition upsample_rates :: "(nat \<Rightarrow> real) \<Rightarrow> files \<Rightarrow> process_end \<times> files" where
  "upsample_rates noise fs =
     (case rates_csv fs of
        None \<Rightarrow> (SysExit 1, fs)
      | Some df_rates \<Rightarrow>
          (case resample_interpolate df_rates of
             Inl e \<Rightarrow> (Uncaught e, fs)
           | Inr df_hourly \<Rightarrow>
               (Completed, fs\<lparr>upsampled_rates_csv := Some (add_noise noise df_hourly)\<rparr>)))"

section \<open>Orchestrator\<close>

subsection \<open>Tables\<close>

text \<open>
  A timestamp of the relational store is a calendar date with the time of day (in
  seconds after midnight); \<open>to_date\<close> truncates it to its date.
\<close>

type_synonym datetime = "date \<times> nat"

definition to_date :: "datetime \<Rightarrow> date" where
  "to_date ts = fst ts"

text \<open>
  A news document as the transform reads it through \<^verbatim>\<open>news_schema\<close> (every field
  nullable, \<^verbatim>\<open>Day\<close> a string), a row of \<^verbatim>\<open>Staging_Rates\<close>, a row of the daily
  aggregate and a row of \<^verbatim>\<open>Gold_Analytics_RedSea\<close>.
\<close>

record news_doc =
  doc_GlobalEventID :: "int option"
  doc_Day :: "string option"
  doc_Country :: "string option"
  doc_Tone :: "real option"
  doc_SourceURL :: "string option"

record rate_row =
  Date :: "datetime option"
  Route :: "string option"
  rate_Price :: "real option"

record daily_news =
  agg_event_date :: "date option"
  agg_news_count :: nat
  agg_avg_conflict_score :: "real option"

record gold_row =
  full_date :: datetime
  Price :: "real option"
  news_count :: nat
  avg_conflict_score :: "real option"

record store =
  raw_gdelt_events :: "news_doc list"
  Staging_Rates :: "rate_row list"
  Gold_Analytics_RedSea :: "gold_row list"

subsection \<open>Column expressions of the transform\<close>

text \<open>Spark's \<^verbatim>\<open>substring(str, pos, len)\<close>, positions counted from 1.\<close>

definition substring :: "string \<Rightarrow> nat \<Rightarrow> nat \<Rightarrow> string" where
  "substring s pos len = take len (drop (pos - 1) s)"

definition day_str :: "news_doc \<Rightarrow> string option" where
  "day_str d = map_option (\<lambda>s. substring s 1 8) (doc_Day d)"

definition leap_year :: "nat \<Rightarrow> bool" where
  "leap_year y = (y mod 4 = 0 \<and> (y mod 100 \<noteq> 0 \<or> y mod 400 = 0))"

definition days_in_month :: "nat \<Rightarrow> nat \<Rightarrow> nat" where
  "days_in_month y m =
     (if m = 2 then (if leap_year y then 29 else 28)
      else if m \<in> set [4, 6, 9, 11] then 30 else 31)"

definition digits_val :: "string \<Rightarrow> nat" where
  "digits_val s = foldl (\<lambda>acc ch. 10 * acc + digit_val ch) 0 s"

text \<open>
  \<^verbatim>\<open>to_date(col, "yyyyMMdd")\<close> is Spark's. On a string it gives a date or \<^verbatim>\<open>NULL\<close>, or
  it raises when the plan runs: with the default time parser policy Spark 3 raises
  \<^verbatim>\<open>SparkUpgradeException\<close> on a string that its parser refuses and the parser of
  Spark 2 would read. The transform is modelled for any such parser \<open>to_date_fmt\<close>.
\<close>

datatype parsed_date = Parsed date | ParsedNull | ParseError

type_synonym date_parser = "string \<Rightarrow> parsed_date"

definition valid_day :: "nat \<Rightarrow> nat \<Rightarrow> nat \<Rightarrow> bool" where
  "valid_day y m d = (1 \<le> y \<and> 1 \<le> m \<and> m \<le> 12 \<and> 1 \<le> d \<and> d \<le> days_in_month y m)"

text \<open>
  The parser of the examples. Eight decimal digits give the day they name, or
  \<^verbatim>\<open>NULL\<close> when they name none; seven decimal digits that read as year, month and
  a one-digit day, such as \<^verbatim>\<open>2023101\<close>, raise. Every other string is taken as \<^verbatim>\<open>NULL\<close>
  here; no theorem rests on that, the theorems hold for every parser.
\<close>

definition to_date_yyyyMMdd :: date_parser where
  "to_date_yyyyMMdd s =
     (let y = digits_val (take 4 s);
          m = digits_val (take 2 (drop 4 s));
          d = digits_val (drop 6 s)
      in if list_all isdecimal s \<and> length s = 8 then
           (if valid_day y m d then Parsed (y, m, d) else ParsedNull)
         else if list_all isdecimal s \<and> length s = 7 \<and> valid_day y m d then ParseError
         else ParsedNull)"

text \<open>
  What the parser makes of a document's day key, and the column \<^verbatim>\<open>event_date\<close> of a
  plan that runs.
\<close>

definition parse_day :: "date_parser \<Rightarrow> news_doc \<Rightarrow> parsed_date" where
  "parse_day to_date_fmt d =
     (case day_str d of None \<Rightarrow> ParsedNull | Some s \<Rightarrow> to_date_fmt s)"

definition event_date :: "date_parser \<Rightarrow> news_doc \<Rightarrow> date option" where
  "event_date to_date_fmt d =
     (case parse_day to_date_fmt d of Parsed x \<Rightarrow> Some x | ParsedNull \<Rightarrow> None | ParseError \<Rightarrow> None)"

definition conflict_intensity :: "news_doc \<Rightarrow> real option" where
  "conflict_intensity d = map_option (\<lambda>t. t * - 1) (doc_Tone d)"

text \<open>The aggregate \<^verbatim>\<open>avg\<close>: the mean of the values that are not null, null when there is none.\<close>

definition non_null :: "'a option list \<Rightarrow> 'a list" where
  "non_null xs = concat (map (\<lambda>x. case x of None \<Rightarrow> [] | Some v \<Rightarrow> [v]) xs)"

definition avg :: "real option list \<Rightarrow> real option" where
  "avg xs =
     (let vs = non_null xs
      in if vs = [] then None else Some (sum_list vs / real (length vs)))"

subsection \<open>\<^verbatim>\<open>transform_data_with_spark\<close>\<close>

text \<open>
  \<^verbatim>\<open>groupBy("event_date").agg(count("*"), avg("conflict_intensity"))\<close>: one row per distinct
  key (null is a key of its own). Spark leaves the order of the groups open; the model
  lists them as \<open>remdups\<close> leaves the keys.
\<close>

definition df_daily_news :: "date_parser \<Rightarrow> news_doc list \<Rightarrow> daily_news list" where
  "df_daily_news to_date_fmt df_news =
     map (\<lambda>k. \<lparr>agg_event_date = k,
               agg_news_count = length (filter (\<lambda>d. event_date to_date_fmt d = k) df_news),
               agg_avg_conflict_score =
                 avg (map conflict_intensity
                        (filter (\<lambda>d. event_date to_date_fmt d = k) df_news))\<rparr>)
         (remdups (map (event_date to_date_fmt) df_news))"

text \<open>
  The inner join on \<^verbatim>\<open>to_date(df_rates.Date) == df_daily_news.event_date\<close> with its
  \<^verbatim>\<open>select\<close>. SQL equality is not true when a side is null.
\<close>

definition join_row :: "rate_row \<Rightarrow> daily_news \<Rightarrow> gold_row list" where
  "join_row r a =
     (case (Date r, agg_event_date a) of
        (Some ts, Some d) \<Rightarrow>
          if to_date ts = d
          then [\<lparr>full_date = ts, Price = rate_Price r,
                 news_count = agg_news_count a,
                 avg_conflict_score = agg_avg_conflict_score a\<rparr>]
          else []
      | _ \<Rightarrow> [])"

definition df_final :: "rate_row list \<Rightarrow> daily_news list \<Rightarrow> gold_row list" where
  "df_final df_rates daily = concat (map (\<lambda>r. concat (map (join_row r) daily)) df_rates)"

text \<open>
  How the asset ends: with one of its two messages, or with the exception of the
  parser, which nothing catches.
\<close>

datatype transform_msg = NoMatchingDates | Saved nat | SparkUpgradeException

text \<open>
  The plan runs at \<^verbatim>\<open>df_final.count()\<close>, and the aggregate reads the event date of
  every document: the plan raises when the parser raises on the day key of a document.
\<close>

definition plan_raises :: "date_parser \<Rightarrow> news_doc list \<Rightarrow> bool" where
  "plan_raises to_date_fmt df_news = list_ex (\<lambda>d. parse_day to_date_fmt d = ParseError) df_news"

text \<open>
  The whole asset on the stores: when the plan raises, nothing is written; otherwise
  the gold table is overwritten with the join when the join has a row, and nothing is
  written when it has none.
\<close>

definition transform_data_with_spark :: "date_parser \<Rightarrow> store \<Rightarrow> store \<times> transform_msg" where
  "transform_data_with_spark to_date_fmt s =
     (if plan_raises to_date_fmt (raw_gdelt_events s) then (s, SparkUpgradeException)
      else
        (let final = df_final (Staging_Rates s) (df_daily_news to_date_fmt (raw_gdelt_events s))
         in if length final > 0
            then (s\<lparr>Gold_Analytics_RedSea := final\<rparr>, Saved (length final))
            else (s, NoMatchingDates)))"

text \<open>
  Vocabulary for the rows of the join: the rows the transform computes from the tables
  of a store, the news documents of a calendar day, whether a day has a news document,
  and the row that joins a rate row (with timestamp \<open>ts\<close>) to the aggregate of its day.
\<close>

definition joined_rows :: "date_parser \<Rightarrow> store \<Rightarrow> gold_row list" where
  "joined_rows p s = df_final (Staging_Rates s) (df_daily_news p (raw_gdelt_events s))"

definition day_docs :: "date_parser \<Rightarrow> news_doc list \<Rightarrow> date \<Rightarrow> news_doc list" where
  "day_docs p df_news d = filter (\<lambda>doc. event_date p doc = Some d) df_news"

definition has_news :: "date_parser \<Rightarrow> news_doc list \<Rightarrow> date \<Rightarrow> bool" where
  "has_news p df_news d = (Some d \<in> set (map (event_date p) df_news))"

definition joined :: "date_parser \<Rightarrow> news_doc list \<Rightarrow> rate_row \<Rightarrow> datetime \<Rightarrow> gold_row" where
  "joined p df_news r ts =
     \<lparr>full_date = ts, Price = rate_Price r,
      news_count = length (day_docs p df_news (to_date ts)),
      avg_conflict_score = avg (map conflict_intensity (day_docs p df_news (to_date ts)))\<rparr>"

subsection \<open>\<^verbatim>\<open>ingest_news_to_mongo\<close>\<close>





section \<open>Dashboard\<close>

record dash_row = gold_row +
  Risk_Score :: "real option"

definition risk_score :: "gold_row \<Rightarrow> real option" where
  "risk_score g = map_option (\<lambda>a. real (news_count g) * a) (avg_conflict_score g)"

definition preprocess :: "gold_row \<Rightarrow> dash_row" where
  "preprocess g =
     \<lparr>full_date = full_date g,
      Price = map_option round2 (Price g),
      news_count = news_count g,
      avg_conflict_score = map_option round2 (avg_conflict_score g),
      Risk_Score = map_option round2 (risk_score g)\<rparr>"

text \<open>
  \<^verbatim>\<open>load_data\<close>: the query result ordered by \<^verbatim>\<open>full_date\<close>, or the empty frame when the
  connection or the query raises.
\<close>

definition load_data :: "string + gold_row list \<Rightarrow> dash_row list" where
  "load_data q =
     (case q of
        Inl e \<Rightarrow> []
      | Inr rows \<Rightarrow> map preprocess (sort_key full_date rows))"

text \<open>
  The default value of the date-range control; the script stops before it when the
  frame is empty.
\<close>

definition min_date :: "dash_row list \<Rightarrow> date" where
  "min_date df = to_date (Min (set (map full_date df)))"

definition max_date :: "dash_row list \<Rightarrow> date" where
  "max_date df = to_date (Max (set (map full_date df)))"

definition default_window :: "dash_row list \<Rightarrow> (date \<times> date) option" where
  "default_window df =
     (if df = [] then None
      else
        (let default_start = (2023, 11, 15);
             default_end = (2024, 1, 31);
             default_start = (if default_start < min_date df then min_date df else default_start);
             default_end = (if max_date df < default_end then max_date df else default_end)
         in Some (default_start, default_end)))"

section \<open>Example inputs\<close>

text \<open>
  A stand-in for \<^verbatim>\<open>float\<close> that knows one literal, and a generator whose draw is
  computed from its state, for evaluating the Miner on concrete rows.
\<close>

definition example_float :: "string \<Rightarrow> real option" where
  "example_float s = (if s = ''-3.5'' then Some (- 3.5) else None)"

definition example_gauss :: "nat \<Rightarrow> real \<Rightarrow> real \<Rightarrow> real \<times> nat" where
  "example_gauss g mu sigma = (mu + sigma * real g, Suc g)"

definition short_date_row :: norm_row where
  "short_date_row = [''Date'' \<mapsto> ''2023-10'', ''URL'' \<mapsto> ''http://example.org/a'']"

definition bad_tone_row :: norm_row where
  "bad_tone_row =
     [''Date'' \<mapsto> ''20231019T120000Z'', ''URL'' \<mapsto> '' http://example.org/a '', ''Tone'' \<mapsto> ''n/a'']"

definition real_tone_row :: norm_row where
  "real_tone_row =
     [''Date'' \<mapsto> ''20231019T120000Z'', ''URL'' \<mapsto> ''http://example.org/a'', ''Tone'' \<mapsto> ''-3.5'']"

text \<open>
  Stores for evaluating the transform. In \<open>example_store\<close> three articles of
  2023-10-19 have the tones -3, -4 and -5 (mean -4) and one article is of 2023-10-18;
  the rates have an hour on 2023-10-19 and one on 2023-10-20.
\<close>

definition article :: "string \<Rightarrow> real \<Rightarrow> news_doc" where
  "article day tone =
     \<lparr>doc_GlobalEventID = Some 100000, doc_Day = Some day, doc_Country = Some ''YEM'',
      doc_Tone = Some tone, doc_SourceURL = Some ''http://example.org/a''\<rparr>"

definition rate :: "date \<Rightarrow> nat \<Rightarrow> real \<Rightarrow> rate_row" where
  "rate d secs price =
     \<lparr>Date = Some (d, secs), Route = Some ''Shanghai-Rotterdam'', rate_Price = Some price\<rparr>"

definition example_store :: store where
  "example_store =
     \<lparr>raw_gdelt_events =
        [article ''20231019'' (- 3), article ''20231018'' (- 2), article ''20231019'' (- 4),
         article ''20231019'' (- 5)],
      Staging_Rates = [rate (2023, 10, 19) 3600 1000, rate (2023, 10, 20) 0 1010],
      Gold_Analytics_RedSea = []\<rparr>"

definition example_gold_row :: gold_row where
  "example_gold_row =
     \<lparr>full_date = ((2023, 10, 19), 3600), Price = Some 1000, news_count = 3,
      avg_conflict_score = Some 4\<rparr>"

text \<open>Three articles of tone -0.004 on the day of one rate hour.\<close>

definition small_tone_store :: store where
  "small_tone_store =
     \<lparr>raw_gdelt_events =
        [article ''20231019'' (- 0.004), article ''20231019'' (- 0.004),
         article ''20231019'' (- 0.004)],
      Staging_Rates = [rate (2023, 10, 19) 0 1000],
      Gold_Analytics_RedSea = []\<rparr>"

text \<open>
  A store without news documents whose gold table holds a row of an earlier run, for
  the rate hour 2023-10-20 00:00.
\<close>

definition stale_gold_store :: store where
  "stale_gold_store =
     \<lparr>raw_gdelt_events = [],
      Staging_Rates = [rate (2023, 10, 20) 0 1010],
      Gold_Analytics_RedSea =
        [\<lparr>full_date = ((2023, 10, 20), 0), Price = Some 990, news_count = 2,
          avg_conflict_score = Some 3\<rparr>]\<rparr>"

text \<open>
  A store with an article of 2023-10-19, an article whose day key has the seven
  digits \<^verbatim>\<open>2023101\<close>, and a rate hour on 2023-10-19.
\<close>

definition seven_digit_store :: store where
  "seven_digit_store =
     \<lparr>raw_gdelt_events = [article ''2023101'' (- 1), article ''20231019'' (- 4)],
      Staging_Rates = [rate (2023, 10, 19) 0 1000],
      Gold_Analytics_RedSea = []\<rparr>"

text \<open>A gold table whose only row is of 2023-02-01, before the default window.\<close>

definition early_gold :: "gold_row list" where
  "early_gold =
     [\<lparr>full_date = ((2023, 2, 1), 0), Price = Some 1000, news_count = 1,
       avg_conflict_score = Some 4\<rparr>]"

text \<open>
  Weekly series for evaluating the Upsampler: a short one, and the two anchors
  (2023-10-01, 1000) and (2023-10-08, 1200) with the values of the straight line
  between them at the 169 hours from the first to the second.
\<close>

definition short_series :: "anchor list" where
  "short_series = [(0, 10), (4, 20)]"

definition weekly_example :: "anchor list" where
  "weekly_example = [(hour_of_date (2023, 10, 1), 1000), (hour_of_date (2023, 10, 8), 1200)]"

definition weekly_values :: "real list" where
  "weekly_values = map (\<lambda>k. 1000 + 200 * real k / 168) [0..<169]"

text \<open>A noise vector of zeros, and working directories without and with \<^verbatim>\<open>rates.csv\<close>.\<close>

definition no_noise :: "nat \<Rightarrow> real" where
  "no_noise k = 0"

definition missing_files :: files where
  "missing_files = \<lparr>rates_csv = None, upsampled_rates_csv = None\<rparr>"

definition short_files :: files where
  "short_files = \<lparr>rates_csv = Some short_series, upsampled_rates_csv = None\<rparr>"



section \<open>Properties of the Event Miner\<close>








text \<open>
  A digit in front of the date moves the window: the 8 leading digits of the field are
  then not the embedded date.
\<close>

lemma cleaned_date_digit_before: "cleaned_date ''1x20231019'' = ''12023101''"
  by (simp add: cleaned_date_def isdigit_def isdecimal_def)

text \<open>
  A superscript digit is a digit for the cleaning and none for \<^verbatim>\<open>int\<close>: it takes a
  place among the 8, and the row is then skipped.
\<close>

lemma cleaned_date_superscript_before:
  "cleaned_date (CHR 0xB2 # ''20231019'') = CHR 0xB2 # ''2023101''"
  "py_int (cleaned_date (CHR 0xB2 # ''20231019'')) = None"
  by (simp_all add: cleaned_date_def isdigit_def isdecimal_def py_int_def)

text \<open>
  C4. The day of a written record is not always an 8-digit integer: on a string of
  decimal digits \<^verbatim>\<open>int\<close> fails only when it is empty, so a date field with fewer than
  8 digits passes the \<^verbatim>\<open>try\<close>. The row with the date \<^verbatim>\<open>2023-10\<close> and a URL is written with the day 202310.
\<close>

theorem short_date_is_written:
  "\<exists>out g'. parse_row pyfloat gauss short_date_row 100000 g = (Some out, g') \<and> Day out = 202310
     \<and> Day out < 10000000"
  by (simp add: parse_row_def short_date_row_def date_raw_def cleaned_date_def isdigit_def isdecimal_def
      py_int_def digit_val_def url_val_def strip_def isspace_def split: prod.splits)

text \<open>A row whose date field has no digit at all is skipped.\<close>

lemma parse_row_empty_date:
  "cleaned_date (date_raw r) = [] \<Longrightarrow> parse_row pyfloat gauss r i g = (None, g)"
  by (simp add: parse_row_def py_int_def)

text \<open>
  C6. Take a row that passes the date and URL checks. If its tone is absent or empty
  (no truthy cell), white space only, or refused by \<^verbatim>\<open>float\<close>, the row is written
  and its tone is the draw \<^verbatim>\<open>random.gauss(-5.0, 2.0)\<close>, which advances the generator.
  If \<^verbatim>\<open>float\<close> accepts the tone, the row is written with the parsed value and the
  generator is not touched.
\<close>

theorem tone_fallback_or_parsed:
  assumes "py_int (cleaned_date (date_raw r)) = Some day" and "url_val r \<noteq> []"
  shows "((tone_str r = None \<or> (\<exists>s. tone_str r = Some s \<and> (strip s = [] \<or> pyfloat s = None))) \<longrightarrow>
           (\<exists>out. parse_row pyfloat gauss r i g = (Some out, snd (gauss g (- 5) 2))
                 \<and> Tone out = fst (gauss g (- 5) 2)))
       \<and> (\<forall>s v. tone_str r = Some s \<and> strip s \<noteq> [] \<and> pyfloat s = Some v \<longrightarrow>
           (\<exists>out. parse_row pyfloat gauss r i g = (Some out, g) \<and> Tone out = v))"
  using assms
  by (auto simp: parse_row_def tone_val_def split: prod.splits option.splits)

lemma bad_tone_row_checks:
  "py_int (cleaned_date (date_raw bad_tone_row)) = Some 20231019" "url_val bad_tone_row \<noteq> []"
  "tone_str bad_tone_row = Some ''n/a''" "example_float ''n/a'' = None"
  by (simp_all add: bad_tone_row_def date_raw_def cleaned_date_def isdigit_def isdecimal_def py_int_def
      digit_val_def url_val_def strip_def isspace_def tone_str_def example_float_def)

lemma real_tone_row_checks:
  "py_int (cleaned_date (date_raw real_tone_row)) = Some 20231019" "url_val real_tone_row \<noteq> []"
  "tone_str real_tone_row = Some ''-3.5''" "strip ''-3.5'' \<noteq> []" "example_float ''-3.5'' = Some (- 3.5)"
  by (simp_all add: real_tone_row_def date_raw_def cleaned_date_def isdigit_def isdecimal_def py_int_def
      digit_val_def url_val_def strip_def isspace_def tone_str_def example_float_def)

theorem tone_fallback_or_parsed_witness:
  "(\<exists>out. parse_row example_float example_gauss bad_tone_row 100000 0 = (Some out, Suc 0) \<and> Tone out = - 5)
 \<and> (\<exists>out. parse_row example_float example_gauss real_tone_row 100001 (Suc 0) = (Some out, Suc 0) \<and> Tone out = - 3.5)"
proof -
  have a: "\<exists>out. parse_row example_float example_gauss bad_tone_row 100000 0 = (Some out, Suc 0) \<and> Tone out = - 5"
    using tone_fallback_or_parsed [OF bad_tone_row_checks(1,2), of example_float example_gauss 100000 0]
      bad_tone_row_checks(3,4)
    by (simp add: example_gauss_def)
  have b: "\<exists>out. parse_row example_float example_gauss real_tone_row 100001 (Suc 0) = (Some out, Suc 0) \<and> Tone out = - 3.5"
    using tone_fallback_or_parsed [OF real_tone_row_checks(1,2), of example_float example_gauss 100001 "Suc 0"]
      real_tone_row_checks(3,4,5)
    by simp
  from a b show ?thesis by blast
qed

section \<open>Properties of the Rate Upsampler\<close>

subsection \<open>Valid points and \<^verbatim>\<open>numpy.interp\<close>\<close>

lemma valid_points_set:
  "(j, v) \<in> set (valid_points i ys) \<longleftrightarrow> (\<exists>k<length ys. j = i + k \<and> ys ! k = Some v)"
proof (induction i ys rule: valid_points.induct)
  case (1 i)
  then show ?case by simp
next
  case (2 i ys)
  have "(\<exists>k<length ys. j = Suc i + k \<and> ys ! k = Some v)
        \<longleftrightarrow> (\<exists>k<length (None # ys). j = i + k \<and> (None # ys) ! k = Some v)"
    (is "?L \<longleftrightarrow> ?R")
  proof
    assume ?L
    then obtain k where "k < length ys" "j = Suc i + k" "ys ! k = Some v" by blast
    then have "Suc k < length (None # ys) \<and> j = i + Suc k \<and> (None # ys) ! Suc k = Some v"
      by simp
    then show ?R by blast
  next
    assume ?R
    then obtain k where k: "k < length (None # ys)" "j = i + k" "(None # ys) ! k = Some v"
      by blast
    then obtain k' where "k = Suc k'" by (cases k) auto
    with k have "k' < length ys \<and> j = Suc i + k' \<and> ys ! k' = Some v" by simp
    then show ?L by blast
  qed
  with 2 show ?case by simp
next
  case (3 i w ys)
  have "(j = i \<and> v = w \<or> (\<exists>k<length ys. j = Suc i + k \<and> ys ! k = Some v))
        \<longleftrightarrow> (\<exists>k<length (Some w # ys). j = i + k \<and> (Some w # ys) ! k = Some v)"
    (is "?L \<longleftrightarrow> ?R")
  proof
    assume ?L
    then show ?R
    proof
      assume "j = i \<and> v = w"
      then have "0 < length (Some w # ys) \<and> j = i + 0 \<and> (Some w # ys) ! 0 = Some v" by simp
      then show ?R by blast
    next
      assume "\<exists>k<length ys. j = Suc i + k \<and> ys ! k = Some v"
      then obtain k where "k < length ys" "j = Suc i + k" "ys ! k = Some v" by blast
      then have "Suc k < length (Some w # ys) \<and> j = i + Suc k \<and> (Some w # ys) ! Suc k = Some v"
        by simp
      then show ?R by blast
    qed
  next
    assume ?R
    then obtain k where k: "k < length (Some w # ys)" "j = i + k" "(Some w # ys) ! k = Some v"
      by blast
    show ?L
    proof (cases k)
      case 0
      with k show ?thesis by simp
    next
      case (Suc k')
      with k have "k' < length ys \<and> j = Suc i + k' \<and> ys ! k' = Some v" by simp
      then show ?thesis by blast
    qed
  qed
  with 3 show ?case by simp
qed

lemma valid_points_lower: "p \<in> set (valid_points i ys) \<Longrightarrow> i \<le> fst p"
  using valid_points_set [of "fst p" "snd p" i ys] by auto

lemma valid_points_sorted: "sorted_wrt (\<lambda>a b. fst a < fst b) (valid_points i ys)"
proof (induction i ys rule: valid_points.induct)
  case (3 i w ys)
  have "i < fst p" if "p \<in> set (valid_points (Suc i) ys)" for p
    using valid_points_lower [OF that] by simp
  with 3 show ?case by simp
qed simp_all

lemma length_interpolate_linear: "length (interpolate_linear ys) = length ys"
  by (simp add: interpolate_linear_def split: list.splits)

lemma nth_interpolate_linear:
  assumes "k < length ys" and "valid_points 0 ys = p # ps"
  shows "interpolate_linear ys ! k =
           (case ys ! k of
              Some v \<Rightarrow> Some v
            | None \<Rightarrow> if k < fst p then None else Some (np_interp (real k) p ps))"
  using assms by (simp add: interpolate_linear_def nth_enumerate_eq)

lemma np_interp_segment:
  assumes "sorted_wrt (\<lambda>a b. fst a < fst b) (p # ps)"
    and "(i, a) \<in> set (p # ps)" and "(j, b) \<in> set (p # ps)"
    and "real i < x" and "x \<le> real j"
    and "\<forall>q\<in>set (p # ps). \<not> (i < fst q \<and> fst q < j)"
  shows "np_interp x p ps = a + (b - a) * (x - real i) / (real j - real i)"
  using assms
proof (induction x p ps rule: np_interp.induct)
  case (1 x i0 a0)
  then show ?case by auto
next
  case (2 x i0 a0 j0 b0 ps)
  have ord: "i0 < j0" and tail: "\<forall>q\<in>set ps. j0 < fst q"
    using "2.prems"(1) by auto
  have i_ge: "i0 \<le> i" and j_ge: "i0 \<le> j"
    using "2.prems"(2,3) ord tail by force+
  have x_gt: "real i0 < x"
    using i_ge "2.prems"(4) by simp
  show ?case
  proof (cases "x \<le> real j0")
    case True
    have "i < j0" using True "2.prems"(4) by simp
    then have i: "i = i0 \<and> a = a0"
      using "2.prems"(2) tail by force
    have "i0 < j" using "2.prems"(5) x_gt by simp
    then have "(j, b) \<in> set ((j0, b0) # ps)"
      using "2.prems"(3) by auto
    moreover have "\<not> j0 < j"
      using "2.prems"(6) i ord by auto
    ultimately have j: "j = j0 \<and> b = b0"
      using tail by force
    from True x_gt i j show ?thesis by simp
  next
    case False
    then have x_gt': "real j0 < x" by simp
    then have jj: "j0 < j" using "2.prems"(5) by simp
    have "i \<noteq> i0"
      using "2.prems"(6) ord jj by auto
    then have mi: "(i, a) \<in> set ((j0, b0) # ps)"
      using "2.prems"(2) by auto
    have mj: "(j, b) \<in> set ((j0, b0) # ps)"
      using "2.prems"(3) jj ord by auto
    have "np_interp x (j0, b0) ps = a + (b - a) * (x - real i) / (real j - real i)"
      using "2.IH" [OF _ _ _ mi mj "2.prems"(4,5)] x_gt x_gt' "2.prems"(1,6) by auto
    with x_gt x_gt' show ?thesis by simp
  qed
qed

subsection \<open>The hourly index and the anchors\<close>

lemma res_index_bounds:
  assumes "df_rates \<noteq> []" and "(t, p) \<in> set df_rates"
  shows "Min (set (map fst df_rates)) \<le> t" and "t \<le> Max (set (map fst df_rates))"
  using assms by (auto intro!: Min_le Max_ge simp: image_iff) force+

lemma res_index_ends:
  assumes "df_rates \<noteq> []"
  shows "\<exists>p. (Min (set (map fst df_rates)), p) \<in> set df_rates"
    and "\<exists>p. (Max (set (map fst df_rates)), p) \<in> set df_rates"
proof -
  have ne: "set (map fst df_rates) \<noteq> {}" and fin: "finite (set (map fst df_rates))"
    using assms by auto
  from Min_in [OF fin ne] show "\<exists>p. (Min (set (map fst df_rates)), p) \<in> set df_rates"
    by (auto simp: image_iff)
  from Max_in [OF fin ne] show "\<exists>p. (Max (set (map fst df_rates)), p) \<in> set df_rates"
    by (auto simp: image_iff)
qed

lemma nth_asfreq:
  assumes "df_rates \<noteq> []" and "k < length (res_index df_rates)"
  shows "map (map_of df_rates) (res_index df_rates) ! k =
           map_of df_rates (Min (set (map fst df_rates)) + int k)"
  using assms by (simp add: res_index_def)

lemma length_res_index:
  "df_rates \<noteq> [] \<Longrightarrow>
     length (res_index df_rates) =
       nat (Max (set (map fst df_rates)) - Min (set (map fst df_rates)) + 1)"
  by (simp add: res_index_def)

lemma asfreq_at:
  assumes ne: "df_rates \<noteq> []"
    and lo: "Min (set (map fst df_rates)) \<le> t" and hi: "t \<le> Max (set (map fst df_rates))"
  shows "nat (t - Min (set (map fst df_rates))) < length (res_index df_rates)"
    and "map (map_of df_rates) (res_index df_rates) ! nat (t - Min (set (map fst df_rates))) =
           map_of df_rates t"
proof -
  show k: "nat (t - Min (set (map fst df_rates))) < length (res_index df_rates)"
    using lo hi by (simp add: length_res_index [OF ne])
  show "map (map_of df_rates) (res_index df_rates) ! nat (t - Min (set (map fst df_rates))) =
           map_of df_rates t"
    using nth_asfreq [OF ne k] lo by simp
qed

lemma anchor_is_valid_point:
  assumes ne: "df_rates \<noteq> []" and d: "distinct (map fst df_rates)"
    and a: "(t, p) \<in> set df_rates"
  shows "(nat (t - Min (set (map fst df_rates))), p)
           \<in> set (valid_points 0 (map (map_of df_rates) (res_index df_rates)))"
proof -
  have b: "Min (set (map fst df_rates)) \<le> t" "t \<le> Max (set (map fst df_rates))"
    using res_index_bounds [OF ne a] by simp_all
  have "map_of df_rates t = Some p"
    using d a by simp
  with asfreq_at [OF ne b] show ?thesis
    unfolding valid_points_set by auto
qed

lemma valid_point_is_anchor:
  assumes ne: "df_rates \<noteq> []" and d: "distinct (map fst df_rates)"
    and q: "q \<in> set (valid_points 0 (map (map_of df_rates) (res_index df_rates)))"
  shows "(Min (set (map fst df_rates)) + int (fst q), snd q) \<in> set df_rates"
proof -
  from q have "(fst q, snd q) \<in> set (valid_points 0 (map (map_of df_rates) (res_index df_rates)))"
    by simp
  then have k: "fst q < length (res_index df_rates)"
    and v: "map (map_of df_rates) (res_index df_rates) ! fst q = Some (snd q)"
    unfolding valid_points_set by auto
  from v nth_asfreq [OF ne k] have "map_of df_rates (Min (set (map fst df_rates)) + int (fst q)) = Some (snd q)"
    by simp
  then show ?thesis by (rule map_of_SomeD)
qed

lemma first_valid_point:
  assumes ne: "df_rates \<noteq> []" and d: "distinct (map fst df_rates)"
  shows "\<exists>p ps. valid_points 0 (map (map_of df_rates) (res_index df_rates)) = p # ps \<and> fst p = 0"
proof -
  let ?vp = "valid_points 0 (map (map_of df_rates) (res_index df_rates))"
  from res_index_ends(1) [OF ne] obtain p0 where "(Min (set (map fst df_rates)), p0) \<in> set df_rates"
    by blast
  from anchor_is_valid_point [OF ne d this] have m: "(0, p0) \<in> set ?vp" by simp
  then obtain p ps where vp: "?vp = p # ps" by (cases ?vp) auto
  have "sorted_wrt (\<lambda>a b. fst a < fst b) (p # ps)"
    using valid_points_sorted [of 0 "map (map_of df_rates) (res_index df_rates)"] vp by simp
  with m vp have "fst p = 0" by auto
  with vp show ?thesis by blast
qed

subsection \<open>Interpolated values\<close>

lemma interpolated_anchor:
  assumes ne: "df_rates \<noteq> []" and d: "distinct (map fst df_rates)"
    and a: "(t, p) \<in> set df_rates"
  shows "interpolate_linear (map (map_of df_rates) (res_index df_rates))
           ! nat (t - Min (set (map fst df_rates))) = Some p"
proof -
  let ?ys = "map (map_of df_rates) (res_index df_rates)"
  let ?k = "nat (t - Min (set (map fst df_rates)))"
  have b: "Min (set (map fst df_rates)) \<le> t" "t \<le> Max (set (map fst df_rates))"
    using res_index_bounds [OF ne a] by simp_all
  have k: "?k < length ?ys" and y: "?ys ! ?k = map_of df_rates t"
    using asfreq_at [OF ne b] by simp_all
  have m: "map_of df_rates t = Some p"
    using d a by simp
  from first_valid_point [OF ne d] obtain q qs where vp: "valid_points 0 ?ys = q # qs"
    by blast
  show ?thesis
    using nth_interpolate_linear [OF k vp] y m by simp
qed

lemma interpolated_segment:
  assumes ne: "df_rates \<noteq> []" and d: "distinct (map fst df_rates)"
    and adj: "adjacent df_rates a b" and t1: "fst a < t" and t2: "t < fst b"
  shows "interpolate_linear (map (map_of df_rates) (res_index df_rates))
           ! nat (t - Min (set (map fst df_rates))) = Some (on_segment a b t)"
proof -
  let ?lo = "Min (set (map fst df_rates))"
  let ?ys = "map (map_of df_rates) (res_index df_rates)"
  let ?k = "nat (t - ?lo)"
  let ?i = "nat (fst a - ?lo)"
  let ?j = "nat (fst b - ?lo)"
  have am: "(fst a, snd a) \<in> set df_rates" and bm: "(fst b, snd b) \<in> set df_rates"
    and between: "\<forall>c\<in>set df_rates. \<not> (fst a < fst c \<and> fst c < fst b)"
    using adj by (simp_all add: adjacent_def)
  have la: "?lo \<le> fst a" and bh: "fst b \<le> Max (set (map fst df_rates))"
    using res_index_bounds [OF ne am] res_index_bounds [OF ne bm] by simp_all
  have b: "?lo \<le> t" "t \<le> Max (set (map fst df_rates))"
    using la bh t1 t2 by simp_all
  have k: "?k < length ?ys" and y: "?ys ! ?k = map_of df_rates t"
    using asfreq_at [OF ne b] by simp_all
  have "map_of df_rates t = None"
  proof (cases "map_of df_rates t")
    case (Some p)
    then have "(t, p) \<in> set df_rates" by (rule map_of_SomeD)
    with between t1 t2 show ?thesis by force
  qed simp
  with y have none: "?ys ! ?k = None" by simp
  from first_valid_point [OF ne d] obtain q qs
    where vp: "valid_points 0 ?ys = q # qs" and q0: "fst q = 0"
    by blast
  have val: "interpolate_linear ?ys ! ?k = Some (np_interp (real ?k) q qs)"
    using nth_interpolate_linear [OF k vp] none q0 by simp
  have srt: "sorted_wrt (\<lambda>a b. fst a < fst b) (q # qs)"
    using valid_points_sorted [of 0 ?ys] vp by simp
  have mi: "(?i, snd a) \<in> set (q # qs)"
    using anchor_is_valid_point [OF ne d am] vp by simp
  have mj: "(?j, snd b) \<in> set (q # qs)"
    using anchor_is_valid_point [OF ne d bm] vp by simp
  have lt: "real ?i < real ?k" and le: "real ?k \<le> real ?j"
    using la t1 t2 by simp_all
  have nb: "\<forall>c\<in>set (q # qs). \<not> (?i < fst c \<and> fst c < ?j)"
  proof
    fix c assume "c \<in> set (q # qs)"
    then have "c \<in> set (valid_points 0 ?ys)" using vp by simp
    from valid_point_is_anchor [OF ne d this] between
    have "\<not> (fst a < ?lo + int (fst c) \<and> ?lo + int (fst c) < fst b)" by force
    then show "\<not> (?i < fst c \<and> fst c < ?j)" using la by linarith
  qed
  have "np_interp (real ?k) q qs =
          snd a + (snd b - snd a) * (real ?k - real ?i) / (real ?j - real ?i)"
    by (rule np_interp_segment [OF srt mi mj lt le nb])
  also have "real ?k - real ?i = real_of_int (t - fst a)"
    using la t1 by simp
  also have "real ?j - real ?i = real_of_int (fst b - fst a)"
    using la t1 t2 by simp
  finally show ?thesis
    using val by (simp add: on_segment_def)
qed

lemma bounding_anchors:
  assumes ne: "df_rates \<noteq> []"
    and lo: "Min (set (map fst df_rates)) \<le> t" and hi: "t \<le> Max (set (map fst df_rates))"
    and nt: "t \<notin> set (map fst df_rates)"
  shows "\<exists>a b. adjacent df_rates a b \<and> fst a < t \<and> t < fst b"
proof -
  let ?H = "set (map fst df_rates)"
  let ?below = "{u \<in> ?H. u < t}" and ?above = "{u \<in> ?H. t < u}"
  have fin: "finite ?H" and Hne: "?H \<noteq> {}" using ne by auto
  have "Min ?H \<in> ?H" "Max ?H \<in> ?H"
    using Min_in [OF fin Hne] Max_in [OF fin Hne] by simp_all
  with lo hi nt have "Min ?H \<in> ?below" "Max ?H \<in> ?above"
    by (auto simp: less_le)
  then have bne: "?below \<noteq> {}" and ane: "?above \<noteq> {}" by blast+
  have bfin: "finite ?below" and afin: "finite ?above" by simp_all
  define t1 where "t1 = Max ?below"
  define t2 where "t2 = Min ?above"
  have t1m: "t1 \<in> ?below" unfolding t1_def using Max_in [OF bfin bne] .
  have t2m: "t2 \<in> ?above" unfolding t2_def using Min_in [OF afin ane] .
  from t1m obtain p1 where a: "(t1, p1) \<in> set df_rates" by (auto simp: image_iff)
  from t2m obtain p2 where b: "(t2, p2) \<in> set df_rates" by (auto simp: image_iff)
  have nb: "\<not> (t1 < fst c \<and> fst c < t2)" if c: "c \<in> set df_rates" for c
  proof
    assume h: "t1 < fst c \<and> fst c < t2"
    have cH: "fst c \<in> ?H" using c by simp
    with nt have "fst c \<noteq> t" by blast
    then consider "fst c < t" | "t < fst c" by linarith
    then show False
    proof cases
      case 1
      with cH have "fst c \<in> ?below" by simp
      then have "fst c \<le> t1" unfolding t1_def using bfin by (intro Max_ge)
      with h show False by simp
    next
      case 2
      with cH have "fst c \<in> ?above" by simp
      then have "t2 \<le> fst c" unfolding t2_def using afin by (intro Min_le)
      with h show False by simp
    qed
  qed
  have "adjacent df_rates (t1, p1) (t2, p2)"
    using a b t1m t2m nb by (auto simp: adjacent_def)
  moreover have "fst (t1, p1) < t" "t < fst (t2, p2)" using t1m t2m by simp_all
  ultimately show ?thesis by blast
qed

lemma upto_0_4: "[0..4::int] = [0, 1, 2, 3, 4]"
  by (simp add: upto_rec1)

lemma short_series_eval:
  "resample_interpolate short_series =
     Inr [(0, Some 10), (1, Some (25 / 2)), (2, Some 15), (3, Some (35 / 2)), (4, Some 20)]"
  by (simp add: resample_interpolate_def asfreq_def res_index_def short_series_def upto_0_4
      interpolate_linear_def enumerate_eq_zip upt_conv_Cons)

lemma resample_interpolate_Inr:
  assumes "distinct (map fst df_rates)"
  shows "resample_interpolate df_rates =
           Inr (zip (res_index df_rates)
                    (interpolate_linear (map (map_of df_rates) (res_index df_rates))))"
  using assms by (simp add: resample_interpolate_def asfreq_def)

lemma hourly_at:
  assumes ne: "df_rates \<noteq> []"
    and lo: "Min (set (map fst df_rates)) \<le> t" and hi: "t \<le> Max (set (map fst df_rates))"
  shows "(t, interpolate_linear (map (map_of df_rates) (res_index df_rates))
               ! nat (t - Min (set (map fst df_rates))))
           \<in> set (zip (res_index df_rates)
                       (interpolate_linear (map (map_of df_rates) (res_index df_rates))))"
proof -
  let ?k = "nat (t - Min (set (map fst df_rates)))"
  have k: "?k < length (res_index df_rates)"
    using asfreq_at(1) [OF ne lo hi] .
  have "res_index df_rates ! ?k = t"
    using k lo ne by (simp add: res_index_def)
  with k show ?thesis
    unfolding in_set_zip by (auto simp: length_interpolate_linear intro!: exI [of _ ?k])
qed

lemma hourly_elem:
  assumes ne: "df_rates \<noteq> []"
    and m: "(t, v) \<in> set (zip (res_index df_rates)
                       (interpolate_linear (map (map_of df_rates) (res_index df_rates))))"
  shows "Min (set (map fst df_rates)) \<le> t" and "t \<le> Max (set (map fst df_rates))"
    and "v = interpolate_linear (map (map_of df_rates) (res_index df_rates))
               ! nat (t - Min (set (map fst df_rates)))"
proof -
  from m obtain k where k: "k < length (res_index df_rates)" and t: "res_index df_rates ! k = t"
    and v: "interpolate_linear (map (map_of df_rates) (res_index df_rates)) ! k = v"
    unfolding in_set_zip by auto
  have tk: "t = Min (set (map fst df_rates)) + int k"
    using k t ne by (simp add: res_index_def)
  show "Min (set (map fst df_rates)) \<le> t" using tk by simp
  show "t \<le> Max (set (map fst df_rates))"
    using tk k by (simp add: length_res_index [OF ne])
  show "v = interpolate_linear (map (map_of df_rates) (res_index df_rates))
               ! nat (t - Min (set (map fst df_rates)))"
    using tk v by simp
qed

lemma on_segment_ends:
  "fst a < fst b \<Longrightarrow> on_segment a b (fst a) = snd a"
  "fst a < fst b \<Longrightarrow> on_segment a b (fst b) = snd b"
  by (simp_all add: on_segment_def)

lemma hourly_values:
  assumes ne: "df_rates \<noteq> []" and d: "distinct (map fst df_rates)"
    and m: "(t, v) \<in> set (zip (res_index df_rates)
                       (interpolate_linear (map (map_of df_rates) (res_index df_rates))))"
  shows "(\<exists>p. (t, p) \<in> set df_rates \<and> v = Some p)
       \<or> (\<exists>a b. adjacent df_rates a b \<and> fst a < t \<and> t < fst b \<and> v = Some (on_segment a b t))"
proof (cases "t \<in> set (map fst df_rates)")
  case True
  then obtain p where p: "(t, p) \<in> set df_rates" by (auto simp: image_iff)
  from interpolated_anchor [OF ne d p] hourly_elem(3) [OF ne m] have "v = Some p" by simp
  with p show ?thesis by blast
next
  case False
  from bounding_anchors [OF ne hourly_elem(1,2) [OF ne m] False]
  obtain a b where ab: "adjacent df_rates a b" "fst a < t" "t < fst b" by blast
  from interpolated_segment [OF ne d ab] hourly_elem(3) [OF ne m]
  have "v = Some (on_segment a b t)" by simp
  with ab show ?thesis by blast
qed

lemma interpolated_closed_segment:
  assumes ne: "df_rates \<noteq> []" and d: "distinct (map fst df_rates)"
    and adj: "adjacent df_rates a b" and t1: "fst a \<le> t" and t2: "t \<le> fst b"
  shows "interpolate_linear (map (map_of df_rates) (res_index df_rates))
          ! nat (t - Min (set (map fst df_rates))) = Some (on_segment a b t)"
proof -
  have am: "(fst a, snd a) \<in> set df_rates" and bm: "(fst b, snd b) \<in> set df_rates"
    and ab: "fst a < fst b"
    using adj by (simp_all add: adjacent_def)
  consider "t = fst a" | "t = fst b" | "fst a < t" "t < fst b"
    using t1 t2 by linarith
  then show ?thesis
  proof cases
    case 1
    with interpolated_anchor [OF ne d am] on_segment_ends(1) [OF ab] show ?thesis by simp
  next
    case 2
    with interpolated_anchor [OF ne d bm] on_segment_ends(2) [OF ab] show ?thesis by simp
  next
    case 3
    then show ?thesis by (rule interpolated_segment [OF ne d adj])
  qed
qed

lemma hourly_on_segment:
  assumes ne: "df_rates \<noteq> []" and d: "distinct (map fst df_rates)"
    and adj: "adjacent df_rates a b" and t1: "fst a \<le> t" and t2: "t \<le> fst b"
  shows "(t, Some (on_segment a b t))
           \<in> set (zip (res_index df_rates)
                       (interpolate_linear (map (map_of df_rates) (res_index df_rates))))"
proof -
  have am: "(fst a, snd a) \<in> set df_rates" and bm: "(fst b, snd b) \<in> set df_rates"
    using adj by (simp_all add: adjacent_def)
  have lo: "Min (set (map fst df_rates)) \<le> t" and hi: "t \<le> Max (set (map fst df_rates))"
    using res_index_bounds [OF ne am] res_index_bounds [OF ne bm] t1 t2 by simp_all
  from hourly_at [OF ne lo hi] interpolated_closed_segment [OF ne d adj t1 t2]
  show ?thesis by simp
qed

lemma map_fst_hourly:
  "map fst (zip (res_index df_rates)
               (interpolate_linear (map (map_of df_rates) (res_index df_rates))))
     = res_index df_rates"
  by (simp add: length_interpolate_linear)

subsection \<open>The week from 2023-10-01 to 2023-10-08\<close>

lemma weekly_hours:
  "hour_of_date (2023, 10, 1) = 471144" "hour_of_date (2023, 10, 8) = 471312"
  by (simp_all add: hour_of_date_def days_from_civil_def)

lemma weekly_example_eq: "weekly_example = [(471144, 1000), (471312, 1200)]"
  unfolding weekly_example_def weekly_hours ..

lemma weekly_example_facts:
  "weekly_example \<noteq> []" "distinct (map fst weekly_example)"
  "Min (set (map fst weekly_example)) = 471144" "Max (set (map fst weekly_example)) = 471312"
  "adjacent weekly_example (471144, 1000) (471312, 1200)"
  by (simp_all add: weekly_example_eq adjacent_def)

lemma weekly_example_ends:
  "Min (fst ` set weekly_example) = 471144" "Max (fst ` set weekly_example) = 471312"
  using weekly_example_facts(3,4) by simp_all

lemma weekly_res_index: "res_index weekly_example = [471144..471312]"
  by (simp only: res_index_def weekly_example_facts if_False)

lemma weekly_interpolated:
  "interpolate_linear (map (map_of weekly_example) (res_index weekly_example)) =
     map Some weekly_values"
proof (rule nth_equalityI)
  show "length (interpolate_linear (map (map_of weekly_example) (res_index weekly_example))) =
        length (map Some weekly_values)"
    by (simp add: length_interpolate_linear weekly_res_index weekly_values_def)
next
  fix k
  assume "k < length (interpolate_linear (map (map_of weekly_example) (res_index weekly_example)))"
  then have k: "k < 169"
    by (simp add: length_interpolate_linear weekly_res_index)
  have "interpolate_linear (map (map_of weekly_example) (res_index weekly_example))
          ! nat ((471144 + int k) - Min (set (map fst weekly_example)))
        = Some (on_segment (471144, 1000) (471312, 1200) (471144 + int k))"
    using k by (intro interpolated_closed_segment weekly_example_facts) simp_all
  then have "interpolate_linear (map (map_of weekly_example) (res_index weekly_example)) ! k
        = Some (1000 + 200 * real k / 168)"
    by (simp add: weekly_example_ends on_segment_def)
  with k show "interpolate_linear (map (map_of weekly_example) (res_index weekly_example)) ! k =
        map Some weekly_values ! k"
    by (simp add: weekly_values_def)
qed

lemma weekly_values_facts:
  "length weekly_values = 169" "hd weekly_values = 1000" "last weekly_values = 1200"
  "sorted_wrt (<) weekly_values"
proof -
  show "length weekly_values = 169" by (simp add: weekly_values_def)
  show "hd weekly_values = 1000" by (simp add: weekly_values_def hd_map upt_conv_Cons)
  have "last weekly_values = weekly_values ! 168"
    by (simp add: weekly_values_def last_conv_nth)
  then show "last weekly_values = 1200" by (simp add: weekly_values_def)
  show "sorted_wrt (<) weekly_values"
    by (simp add: weekly_values_def sorted_wrt_iff_nth_less)
qed

lemma weekly_upsampled:
  "resample_interpolate weekly_example =
     Inr (zip [hour_of_date (2023, 10, 1) .. hour_of_date (2023, 10, 8)] (map Some weekly_values))"
proof -
  have "resample_interpolate weekly_example =
          Inr (zip (res_index weekly_example) (map Some weekly_values))"
    using resample_interpolate_Inr [OF weekly_example_facts(2)] unfolding weekly_interpolated .
  then show ?thesis
    unfolding weekly_res_index weekly_hours .
qed

subsection \<open>The Upsampler as a whole\<close>

lemma map_hourly_Date_add_noise: "map hourly_Date (add_noise noise df_hourly) = map fst df_hourly"
  by (rule nth_equalityI) (simp_all add: add_noise_def nth_enumerate_eq split_beta)

lemma upsample_rates_completes:
  assumes "rates_csv fs = Some df_rates" and "distinct (map fst df_rates)"
  shows "upsample_rates noise fs =
           (Completed,
            fs\<lparr>upsampled_rates_csv :=
                 Some (add_noise noise
                         (zip (res_index df_rates)
                              (interpolate_linear (map (map_of df_rates) (res_index df_rates)))))\<rparr>)"
  using assms by (simp add: upsample_rates_def resample_interpolate_Inr)

lemma short_series_facts:
  "short_series \<noteq> []" "distinct (map fst short_series)"
  "adjacent short_series (0, 10) (4, 20)"
  by (simp_all add: short_series_def adjacent_def)

text \<open>
  C2. For a weekly series that is not empty and has no timestamp twice, the resampled and
  interpolated frame exists; its index is the contiguous run of hours from the smallest
  to the largest timestamp of the series, both included and nothing beyond; each of its
  values is the price of the anchor of that hour or, for an hour strictly between two
  adjacent anchors, the value of the straight line through them; every hour between
  two adjacent anchors carries that value; and the Upsampler run on such a file
  completes and writes rows with this index. In particular the anchors
  (2023-10-01, 1000) and (2023-10-08, 1200) give 169 hourly values before the noise,
  strictly increasing from 1000 to 1200.
\<close>

theorem upsample_is_linear_interpolation:
  "(df_rates \<noteq> [] \<and> distinct (map fst df_rates) \<longrightarrow>
      (\<exists>df_hourly. resample_interpolate df_rates = Inr df_hourly
         \<and> map fst df_hourly = [Min (set (map fst df_rates)) .. Max (set (map fst df_rates))]
         \<and> (\<forall>(t, v)\<in>set df_hourly.
               (\<exists>p. (t, p) \<in> set df_rates \<and> v = Some p)
               \<or> (\<exists>a b. adjacent df_rates a b \<and> fst a < t \<and> t < fst b
                         \<and> v = Some (on_segment a b t)))
         \<and> (\<forall>a b t. adjacent df_rates a b \<and> fst a \<le> t \<and> t \<le> fst b \<longrightarrow>
               (t, Some (on_segment a b t)) \<in> set df_hourly)
         \<and> (\<forall>noise fs. rates_csv fs = Some df_rates \<longrightarrow>
               (\<exists>rows. upsample_rates noise fs = (Completed, fs\<lparr>upsampled_rates_csv := Some rows\<rparr>)
                   \<and> map hourly_Date rows =
                       [Min (set (map fst df_rates)) .. Max (set (map fst df_rates))]))))
 \<and> (\<exists>vals. resample_interpolate weekly_example =
              Inr (zip [hour_of_date (2023, 10, 1) .. hour_of_date (2023, 10, 8)] (map Some vals))
         \<and> length vals = 169 \<and> hd vals = 1000 \<and> last vals = 1200 \<and> sorted_wrt (<) vals)"
proof (intro conjI impI)
  assume "df_rates \<noteq> [] \<and> distinct (map fst df_rates)"
  then have ne: "df_rates \<noteq> []" and d: "distinct (map fst df_rates)" by simp_all
  let ?out = "zip (res_index df_rates)
                  (interpolate_linear (map (map_of df_rates) (res_index df_rates)))"
  have idx: "res_index df_rates = [Min (set (map fst df_rates)) .. Max (set (map fst df_rates))]"
    using ne by (simp add: res_index_def)
  have 1: "resample_interpolate df_rates = Inr ?out"
    using d by (rule resample_interpolate_Inr)
  have 2: "map fst ?out = [Min (set (map fst df_rates)) .. Max (set (map fst df_rates))]"
    by (rule trans [OF map_fst_hourly idx])
  have 3: "\<forall>(t, v)\<in>set ?out.
               (\<exists>p. (t, p) \<in> set df_rates \<and> v = Some p)
               \<or> (\<exists>a b. adjacent df_rates a b \<and> fst a < t \<and> t < fst b
                         \<and> v = Some (on_segment a b t))"
    using hourly_values [OF ne d] by blast
  have 4: "\<forall>a b t. adjacent df_rates a b \<and> fst a \<le> t \<and> t \<le> fst b \<longrightarrow>
               (t, Some (on_segment a b t)) \<in> set ?out"
    using hourly_on_segment [OF ne d] by blast
  have 5: "\<forall>noise fs. rates_csv fs = Some df_rates \<longrightarrow>
               (\<exists>rows. upsample_rates noise fs = (Completed, fs\<lparr>upsampled_rates_csv := Some rows\<rparr>)
                   \<and> map hourly_Date rows =
                       [Min (set (map fst df_rates)) .. Max (set (map fst df_rates))])"
  proof (intro allI impI)
    fix noise :: "nat \<Rightarrow> real" and fs :: files
    assume "rates_csv fs = Some df_rates"
    then have u: "upsample_rates noise fs =
                    (Completed, fs\<lparr>upsampled_rates_csv := Some (add_noise noise ?out)\<rparr>)"
      using d by (rule upsample_rates_completes)
    have m: "map hourly_Date (add_noise noise ?out) =
               [Min (set (map fst df_rates)) .. Max (set (map fst df_rates))]"
      by (rule trans [OF map_hourly_Date_add_noise 2])
    from u m
    show "\<exists>rows. upsample_rates noise fs = (Completed, fs\<lparr>upsampled_rates_csv := Some rows\<rparr>)
                   \<and> map hourly_Date rows =
                       [Min (set (map fst df_rates)) .. Max (set (map fst df_rates))]"
      by (intro exI [of _ "add_noise noise ?out"] conjI)
  qed
  from 1 2 3 4 5
  show "\<exists>df_hourly. resample_interpolate df_rates = Inr df_hourly
         \<and> map fst df_hourly = [Min (set (map fst df_rates)) .. Max (set (map fst df_rates))]
         \<and> (\<forall>(t, v)\<in>set df_hourly.
               (\<exists>p. (t, p) \<in> set df_rates \<and> v = Some p)
               \<or> (\<exists>a b. adjacent df_rates a b \<and> fst a < t \<and> t < fst b
                         \<and> v = Some (on_segment a b t)))
         \<and> (\<forall>a b t. adjacent df_rates a b \<and> fst a \<le> t \<and> t \<le> fst b \<longrightarrow>
               (t, Some (on_segment a b t)) \<in> set df_hourly)
         \<and> (\<forall>noise fs. rates_csv fs = Some df_rates \<longrightarrow>
               (\<exists>rows. upsample_rates noise fs = (Completed, fs\<lparr>upsampled_rates_csv := Some rows\<rparr>)
                   \<and> map hourly_Date rows =
                       [Min (set (map fst df_rates)) .. Max (set (map fst df_rates))]))"
    by (intro exI [of _ ?out] conjI)
next
  from weekly_upsampled weekly_values_facts
  show "\<exists>vals. resample_interpolate weekly_example =
              Inr (zip [hour_of_date (2023, 10, 1) .. hour_of_date (2023, 10, 8)] (map Some vals))
         \<and> length vals = 169 \<and> hd vals = 1000 \<and> last vals = 1200 \<and> sorted_wrt (<) vals"
    by blast
qed

theorem upsample_is_linear_interpolation_witness:
  "short_series \<noteq> [] \<and> distinct (map fst short_series)
   \<and> adjacent short_series (0, 10) (4, 20)
   \<and> resample_interpolate short_series =
       Inr [(0, Some 10), (1, Some (25 / 2)), (2, Some 15), (3, Some (35 / 2)), (4, Some 20)]
   \<and> on_segment (0, 10) (4, 20) 3 = 35 / 2
   \<and> (3, Some (on_segment (0, 10) (4, 20) 3))
        \<in> set [(0, Some 10), (1, Some (25 / 2)), (2, Some 15), (3, Some (35 / 2)), (4, Some 20)]"
proof -
  from upsample_is_linear_interpolation [of short_series] short_series_facts
  obtain df_hourly where h: "resample_interpolate short_series = Inr df_hourly"
    and seg: "\<forall>a b t. adjacent short_series a b \<and> fst a \<le> t \<and> t \<le> fst b \<longrightarrow>
               (t, Some (on_segment a b t)) \<in> set df_hourly"
    by blast
  from h have e: "df_hourly =
       [(0, Some 10), (1, Some (25 / 2)), (2, Some 15), (3, Some (35 / 2)), (4, Some 20)]"
    by (simp add: short_series_eval)
  have "(3, Some (on_segment (0, 10) (4, 20) 3)) \<in> set df_hourly"
    using seg short_series_facts(3) by simp
  moreover have "on_segment (0, 10) (4, 20) 3 = 35 / 2"
    by (simp add: on_segment_def)
  ultimately show ?thesis
    using e short_series_facts short_series_eval by simp
qed

text \<open>
  C8. When \<^verbatim>\<open>rates.csv\<close> is absent the Upsampler leaves through \<^verbatim>\<open>sys.exit\<close> with a
  status that is not zero, and the files are as they were: no output is written. When
  the file is present and no timestamp occurs twice, the run completes and writes the
  output file; such a file exists.
\<close>

theorem upsampler_fails_fast:
  "(rates_csv fs = None \<longrightarrow> (\<exists>n. n \<noteq> 0 \<and> upsample_rates noise fs = (SysExit n, fs)))
 \<and> (\<forall>df_rates. rates_csv fs = Some df_rates \<and> distinct (map fst df_rates) \<longrightarrow>
        (\<exists>rows. upsample_rates noise fs = (Completed, fs\<lparr>upsampled_rates_csv := Some rows\<rparr>)))
 \<and> (\<exists>fs' rows. rates_csv fs' \<noteq> None
        \<and> upsample_rates noise fs' = (Completed, fs'\<lparr>upsampled_rates_csv := Some rows\<rparr>))"
proof (intro conjI impI allI)
  assume "rates_csv fs = None"
  then have "(1::nat) \<noteq> 0 \<and> upsample_rates noise fs = (SysExit 1, fs)"
    by (simp add: upsample_rates_def)
  then show "\<exists>n. n \<noteq> 0 \<and> upsample_rates noise fs = (SysExit n, fs)" ..
next
  fix df_rates
  assume "rates_csv fs = Some df_rates \<and> distinct (map fst df_rates)"
  then have "rates_csv fs = Some df_rates" "distinct (map fst df_rates)" by simp_all
  from upsample_rates_completes [OF this, of noise]
  show "\<exists>rows. upsample_rates noise fs = (Completed, fs\<lparr>upsampled_rates_csv := Some rows\<rparr>)"
    by (rule exI)
next
  have "rates_csv short_files = Some short_series"
    by (simp add: short_files_def)
  from upsample_rates_completes [OF this short_series_facts(2), of noise] this
  show "\<exists>fs' rows. rates_csv fs' \<noteq> None
        \<and> upsample_rates noise fs' = (Completed, fs'\<lparr>upsampled_rates_csv := Some rows\<rparr>)"
    by (intro exI [of _ short_files] exI conjI) simp_all
qed

theorem upsampler_fails_fast_witness:
  "rates_csv missing_files = None
   \<and> upsample_rates no_noise missing_files = (SysExit 1, missing_files)
   \<and> upsampled_rates_csv (snd (upsample_rates no_noise missing_files)) = None
   \<and> rates_csv short_files = Some short_series \<and> distinct (map fst short_series)
   \<and> fst (upsample_rates no_noise short_files) = Completed
   \<and> upsampled_rates_csv (snd (upsample_rates no_noise short_files)) \<noteq> None"
proof -
  have m: "rates_csv missing_files = None"
    by (simp add: missing_files_def)
  have s: "rates_csv short_files = Some short_series"
    by (simp add: short_files_def)
  note ff = upsampler_fails_fast [of missing_files no_noise]
  from ff m obtain n where "upsample_rates no_noise missing_files = (SysExit n, missing_files)"
    by blast
  moreover have "upsample_rates no_noise missing_files = (SysExit 1, missing_files)"
    by (simp add: upsample_rates_def m)
  moreover have "upsampled_rates_csv missing_files = None"
    by (simp add: missing_files_def)
  moreover from upsampler_fails_fast [of short_files no_noise] s short_series_facts(2)
  obtain rows where "upsample_rates no_noise short_files =
       (Completed, short_files\<lparr>upsampled_rates_csv := Some rows\<rparr>)"
    by blast
  ultimately show ?thesis
    using m s short_series_facts(2) by simp
qed

section \<open>Properties of the orchestrator\<close>

lemma concat_map_single_key:
  "distinct ks \<Longrightarrow>
     concat (map (\<lambda>k. if k = K then [f k] else []) ks) = (if K \<in> set ks then [f K] else [])"
  by (induction ks) auto

lemma join_row_daily:
  "join_row r \<lparr>agg_event_date = k, agg_news_count = n, agg_avg_conflict_score = a\<rparr> =
     (case Date r of
        None \<Rightarrow> []
      | Some ts \<Rightarrow>
          if k = Some (to_date ts)
          then [\<lparr>full_date = ts, Price = rate_Price r, news_count = n, avg_conflict_score = a\<rparr>]
          else [])"
  by (auto simp: join_row_def split: option.splits)

lemma join_rate_with_daily:
  "concat (map (join_row r) (df_daily_news p df_news)) =
     (case Date r of
        None \<Rightarrow> []
      | Some ts \<Rightarrow> if has_news p df_news (to_date ts) then [joined p df_news r ts] else [])"
proof (cases "Date r")
  case None
  then show ?thesis
    by (simp add: df_daily_news_def join_row_daily comp_def)
next
  case (Some ts)
  let ?f = "\<lambda>k. \<lparr>full_date = ts, Price = rate_Price r,
                 news_count = length (filter (\<lambda>d. event_date p d = k) df_news),
                 avg_conflict_score = avg (map conflict_intensity (filter (\<lambda>d. event_date p d = k) df_news))\<rparr>"
  have "concat (map (join_row r) (df_daily_news p df_news)) =
        concat (map (\<lambda>k. if k = Some (to_date ts) then [?f k] else []) (remdups (map (event_date p) df_news)))"
    using Some by (simp add: df_daily_news_def join_row_daily comp_def)
  also have "\<dots> = (if Some (to_date ts) \<in> set (remdups (map (event_date p) df_news))
                    then [?f (Some (to_date ts))] else [])"
    by (rule concat_map_single_key) simp
  finally show ?thesis
    using Some by (simp add: has_news_def joined_def day_docs_def)
qed

lemma df_final_closed_form:
  "df_final df_rates (df_daily_news p df_news) =
     concat (map (\<lambda>r. case Date r of
                        None \<Rightarrow> []
                      | Some ts \<Rightarrow> if has_news p df_news (to_date ts) then [joined p df_news r ts] else [])
                 df_rates)"
  by (simp add: df_final_def join_rate_with_daily)

lemma in_joined_case: "g \<in> set (case Date r of
                        None \<Rightarrow> []
                      | Some ts \<Rightarrow> if has_news p df_news (to_date ts) then [joined p df_news r ts] else [])
      \<longleftrightarrow> (\<exists>ts. Date r = Some ts \<and> has_news p df_news (to_date ts) \<and> g = joined p df_news r ts)"
  by (cases "Date r") auto

lemma in_df_final_iff: "g \<in> set (df_final df_rates (df_daily_news p df_news)) \<longleftrightarrow>
        (\<exists>r\<in>set df_rates. \<exists>ts. Date r = Some ts \<and> has_news p df_news (to_date ts) \<and> g = joined p df_news r ts)"
  by (simp only: df_final_closed_form set_concat set_map UN_iff bex_simps image_iff in_joined_case)

lemma length_df_final:
  "length (df_final df_rates (df_daily_news p df_news)) =
     length (filter (\<lambda>r. case Date r of None \<Rightarrow> False | Some ts \<Rightarrow> has_news p df_news (to_date ts)) df_rates)"
  unfolding df_final_closed_form
  by (induction df_rates) (auto split: option.splits)

lemma transform_raises:
  "plan_raises p (raw_gdelt_events s) \<Longrightarrow>
     transform_data_with_spark p s = (s, SparkUpgradeException)"
  by (simp add: transform_data_with_spark_def)

lemma transform_runs:
  "\<not> plan_raises p (raw_gdelt_events s) \<Longrightarrow>
     transform_data_with_spark p s =
       (if joined_rows p s \<noteq> []
        then (s\<lparr>Gold_Analytics_RedSea := joined_rows p s\<rparr>, Saved (length (joined_rows p s)))
        else (s, NoMatchingDates))"
  by (simp add: transform_data_with_spark_def joined_rows_def Let_def)

text \<open>
  The transform leaves its two source tables alone, and a second run on the stores the
  first run left gives the same stores and the same result.
\<close>

lemma transform_sources:
  "raw_gdelt_events (fst (transform_data_with_spark p s)) = raw_gdelt_events s"
  "Staging_Rates (fst (transform_data_with_spark p s)) = Staging_Rates s"
  by (simp_all add: transform_data_with_spark_def Let_def)

lemma transform_idem:
  "transform_data_with_spark p (fst (transform_data_with_spark p s)) = transform_data_with_spark p s"
  by (simp add: transform_data_with_spark_def Let_def)

lemma avg_neg: "avg (map (map_option (\<lambda>t. t * - 1)) xs) = map_option uminus (avg xs)"
proof -
  have "non_null (map (map_option (\<lambda>t::real. t * - 1)) xs) = map uminus (non_null xs)"
    unfolding non_null_def by (induction xs) (auto split: option.splits)
  moreover have "sum_list (map uminus vs) = - sum_list vs" for vs :: "real list"
    by (induction vs) auto
  ultimately show ?thesis
    by (simp add: avg_def Let_def)
qed

subsection \<open>The example stores, evaluated\<close>

lemma article_parse_day:
  "parse_day to_date_yyyyMMdd (article ''20231019'' t) = Parsed (2023, 10, 19)"
  "parse_day to_date_yyyyMMdd (article ''20231018'' t) = Parsed (2023, 10, 18)"
  "parse_day to_date_yyyyMMdd (article ''2023101'' t) = ParseError"
  by (simp_all add: parse_day_def article_def day_str_def substring_def to_date_yyyyMMdd_def
      isdecimal_def digits_val_def digit_val_def valid_day_def days_in_month_def Let_def)

lemma article_event_date:
  "event_date to_date_yyyyMMdd (article ''20231019'' t) = Some (2023, 10, 19)"
  "event_date to_date_yyyyMMdd (article ''20231018'' t) = Some (2023, 10, 18)"
  by (simp_all add: event_date_def article_parse_day)

lemma article_conflict_intensity: "conflict_intensity (article day t) = Some (- t)"
  by (simp add: conflict_intensity_def article_def)

lemma article_tone: "doc_Tone (article day t) = Some t"
  by (simp add: article_def)

lemma example_store_tables:
  "Staging_Rates example_store = [rate (2023, 10, 19) 3600 1000, rate (2023, 10, 20) 0 1010]"
  "raw_gdelt_events example_store =
     [article ''20231019'' (- 3), article ''20231018'' (- 2), article ''20231019'' (- 4),
      article ''20231019'' (- 5)]"
  by (simp_all add: example_store_def)

lemma rate_Date: "Date (rate d secs price) = Some (d, secs)"
  by (simp add: rate_def)

lemma example_store_runs: "\<not> plan_raises to_date_yyyyMMdd (raw_gdelt_events example_store)"
  by (simp add: plan_raises_def example_store_tables article_parse_day)

lemma example_joined: "joined_rows to_date_yyyyMMdd example_store = [example_gold_row]"
  by (simp add: joined_rows_def df_final_closed_form example_store_def rate_def has_news_def
      joined_def day_docs_def article_event_date article_conflict_intensity avg_def non_null_def
      to_date_def example_gold_row_def)

lemma small_tone_joined:
  "joined_rows to_date_yyyyMMdd small_tone_store =
     [\<lparr>full_date = ((2023, 10, 19), 0), Price = Some 1000, news_count = 3,
       avg_conflict_score = Some (4 / 1000)\<rparr>]"
  by (simp add: joined_rows_def df_final_closed_form small_tone_store_def rate_def has_news_def
      joined_def day_docs_def article_event_date article_conflict_intensity avg_def non_null_def
      to_date_def)

text \<open>
  A document whose day key has seven digits: the parser raises, the asset ends with
  the exception and the stores are as they were.
\<close>

lemma seven_digit_store_raises:
  "transform_data_with_spark to_date_yyyyMMdd seven_digit_store =
     (seven_digit_store, SparkUpgradeException)"
  by (rule transform_raises) (simp add: plan_raises_def seven_digit_store_def article_parse_day)

subsection \<open>The join and the scores\<close>

text \<open>
  C1 (as amended). Let the plan run, that is, let the parser raise on no document. The
  rows of the join are an inner join on the calendar date: a row is among them exactly
  when it pairs a rate row (with a timestamp) with the aggregate of the news documents
  whose event date is the date of that timestamp, and there is one row for each rate
  row whose date has a news document. When the join has a row, the gold table after the
  run is the join: a gold row exists exactly for those pairs, a rate hour whose date has
  no news document leaves no gold row of that date, and a news day without a rate hour
  leaves no gold row of that date. When the join has no row, the run writes nothing and
  the gold table is what it was.
\<close>

theorem inner_join_on_calendar_date:
  assumes "\<not> plan_raises p (raw_gdelt_events s)"
  shows
   "(\<forall>g. g \<in> set (joined_rows p s) \<longleftrightarrow>
        (\<exists>r\<in>set (Staging_Rates s). \<exists>ts. Date r = Some ts
            \<and> (\<exists>doc\<in>set (raw_gdelt_events s). event_date p doc = Some (to_date ts))
            \<and> g = \<lparr>full_date = ts, Price = rate_Price r,
                    news_count = length (day_docs p (raw_gdelt_events s) (to_date ts)),
                    avg_conflict_score =
                      avg (map conflict_intensity (day_docs p (raw_gdelt_events s) (to_date ts)))\<rparr>))
 \<and> length (joined_rows p s) =
       length (filter (\<lambda>r. case Date r of None \<Rightarrow> False
                             | Some ts \<Rightarrow> has_news p (raw_gdelt_events s) (to_date ts))
                      (Staging_Rates s))
 \<and> (joined_rows p s \<noteq> [] \<longrightarrow>
       transform_data_with_spark p s =
         (s\<lparr>Gold_Analytics_RedSea := joined_rows p s\<rparr>, Saved (length (joined_rows p s)))
     \<and> Gold_Analytics_RedSea (fst (transform_data_with_spark p s)) = joined_rows p s
     \<and> (\<forall>r\<in>set (Staging_Rates s). \<forall>ts. Date r = Some ts
          \<and> \<not> (\<exists>doc\<in>set (raw_gdelt_events s). event_date p doc = Some (to_date ts))
          \<longrightarrow> \<not> (\<exists>g\<in>set (Gold_Analytics_RedSea (fst (transform_data_with_spark p s))).
                    to_date (full_date g) = to_date ts))
     \<and> (\<forall>doc\<in>set (raw_gdelt_events s). \<forall>d. event_date p doc = Some d
          \<and> \<not> (\<exists>r\<in>set (Staging_Rates s). \<exists>ts. Date r = Some ts \<and> to_date ts = d)
          \<longrightarrow> \<not> (\<exists>g\<in>set (Gold_Analytics_RedSea (fst (transform_data_with_spark p s))).
                    to_date (full_date g) = d)))
 \<and> (joined_rows p s = [] \<longrightarrow> transform_data_with_spark p s = (s, NoMatchingDates))"
proof -
  have hn: "has_news p (raw_gdelt_events s) d \<longleftrightarrow>
            (\<exists>doc\<in>set (raw_gdelt_events s). event_date p doc = Some d)" for d
    by (force simp: has_news_def image_iff)
  have mem: "g \<in> set (joined_rows p s) \<longleftrightarrow>
        (\<exists>r\<in>set (Staging_Rates s). \<exists>ts. Date r = Some ts
            \<and> (\<exists>doc\<in>set (raw_gdelt_events s). event_date p doc = Some (to_date ts))
            \<and> g = \<lparr>full_date = ts, Price = rate_Price r,
                    news_count = length (day_docs p (raw_gdelt_events s) (to_date ts)),
                    avg_conflict_score =
                      avg (map conflict_intensity (day_docs p (raw_gdelt_events s) (to_date ts)))\<rparr>)"
    for g
    unfolding joined_rows_def in_df_final_iff hn joined_def ..
  have len: "length (joined_rows p s) =
       length (filter (\<lambda>r. case Date r of None \<Rightarrow> False
                             | Some ts \<Rightarrow> has_news p (raw_gdelt_events s) (to_date ts))
                      (Staging_Rates s))"
    unfolding joined_rows_def by (rule length_df_final)
  have row_of: "(\<exists>doc\<in>set (raw_gdelt_events s). event_date p doc = Some (to_date (full_date g)))
               \<and> (\<exists>r\<in>set (Staging_Rates s). Date r = Some (full_date g))"
    if "g \<in> set (joined_rows p s)" for g
    using that unfolding mem by force
  have rate_absent: "\<not> (\<exists>g\<in>set (joined_rows p s). to_date (full_date g) = to_date ts)"
    if "\<not> (\<exists>doc\<in>set (raw_gdelt_events s). event_date p doc = Some (to_date ts))" for ts
    using that row_of by metis
  have news_absent: "\<not> (\<exists>g\<in>set (joined_rows p s). to_date (full_date g) = d)"
    if "\<not> (\<exists>r\<in>set (Staging_Rates s). \<exists>ts. Date r = Some ts \<and> to_date ts = d)" for d
    using that row_of by metis
  have run: "transform_data_with_spark p s =
       (if joined_rows p s \<noteq> []
        then (s\<lparr>Gold_Analytics_RedSea := joined_rows p s\<rparr>, Saved (length (joined_rows p s)))
        else (s, NoMatchingDates))"
    using assms by (rule transform_runs)
  have written: "transform_data_with_spark p s =
         (s\<lparr>Gold_Analytics_RedSea := joined_rows p s\<rparr>, Saved (length (joined_rows p s)))"
    and gold: "Gold_Analytics_RedSea (fst (transform_data_with_spark p s)) = joined_rows p s"
    if "joined_rows p s \<noteq> []"
    using that run by simp_all
  have kept: "joined_rows p s = [] \<longrightarrow> transform_data_with_spark p s = (s, NoMatchingDates)"
    using run by simp
  have A: "\<forall>g. g \<in> set (joined_rows p s) \<longleftrightarrow>
        (\<exists>r\<in>set (Staging_Rates s). \<exists>ts. Date r = Some ts
            \<and> (\<exists>doc\<in>set (raw_gdelt_events s). event_date p doc = Some (to_date ts))
            \<and> g = \<lparr>full_date = ts, Price = rate_Price r,
                    news_count = length (day_docs p (raw_gdelt_events s) (to_date ts)),
                    avg_conflict_score =
                      avg (map conflict_intensity (day_docs p (raw_gdelt_events s) (to_date ts)))\<rparr>)"
    using mem by blast
  have C: "joined_rows p s \<noteq> [] \<longrightarrow>
       transform_data_with_spark p s =
         (s\<lparr>Gold_Analytics_RedSea := joined_rows p s\<rparr>, Saved (length (joined_rows p s)))
     \<and> Gold_Analytics_RedSea (fst (transform_data_with_spark p s)) = joined_rows p s
     \<and> (\<forall>r\<in>set (Staging_Rates s). \<forall>ts. Date r = Some ts
          \<and> \<not> (\<exists>doc\<in>set (raw_gdelt_events s). event_date p doc = Some (to_date ts))
          \<longrightarrow> \<not> (\<exists>g\<in>set (Gold_Analytics_RedSea (fst (transform_data_with_spark p s))).
                    to_date (full_date g) = to_date ts))
     \<and> (\<forall>doc\<in>set (raw_gdelt_events s). \<forall>d. event_date p doc = Some d
          \<and> \<not> (\<exists>r\<in>set (Staging_Rates s). \<exists>ts. Date r = Some ts \<and> to_date ts = d)
          \<longrightarrow> \<not> (\<exists>g\<in>set (Gold_Analytics_RedSea (fst (transform_data_with_spark p s))).
                    to_date (full_date g) = d))"
  proof (intro impI conjI)
    assume ne: "joined_rows p s \<noteq> []"
    show "transform_data_with_spark p s =
         (s\<lparr>Gold_Analytics_RedSea := joined_rows p s\<rparr>, Saved (length (joined_rows p s)))"
      using ne by (rule written)
    show "Gold_Analytics_RedSea (fst (transform_data_with_spark p s)) = joined_rows p s"
      using ne by (rule gold)
    show "\<forall>r\<in>set (Staging_Rates s). \<forall>ts. Date r = Some ts
          \<and> \<not> (\<exists>doc\<in>set (raw_gdelt_events s). event_date p doc = Some (to_date ts))
          \<longrightarrow> \<not> (\<exists>g\<in>set (Gold_Analytics_RedSea (fst (transform_data_with_spark p s))).
                    to_date (full_date g) = to_date ts)"
      unfolding gold [OF ne] using rate_absent by blast
    show "\<forall>doc\<in>set (raw_gdelt_events s). \<forall>d. event_date p doc = Some d
          \<and> \<not> (\<exists>r\<in>set (Staging_Rates s). \<exists>ts. Date r = Some ts \<and> to_date ts = d)
          \<longrightarrow> \<not> (\<exists>g\<in>set (Gold_Analytics_RedSea (fst (transform_data_with_spark p s))).
                    to_date (full_date g) = d)"
      unfolding gold [OF ne] using news_absent by blast
  qed
  show ?thesis
    by (rule conjI [OF A conjI [OF len conjI [OF C kept]]])
qed

theorem inner_join_on_calendar_date_witness:
  "\<not> plan_raises to_date_yyyyMMdd (raw_gdelt_events example_store)
   \<and> joined_rows to_date_yyyyMMdd example_store = [example_gold_row]
   \<and> Gold_Analytics_RedSea (fst (transform_data_with_spark to_date_yyyyMMdd example_store)) =
       [example_gold_row]
   \<and> \<not> (\<exists>g\<in>set (Gold_Analytics_RedSea (fst (transform_data_with_spark to_date_yyyyMMdd example_store))).
           to_date (full_date g) = (2023, 10, 20))
   \<and> \<not> (\<exists>g\<in>set (Gold_Analytics_RedSea (fst (transform_data_with_spark to_date_yyyyMMdd example_store))).
           to_date (full_date g) = (2023, 10, 18))"
proof -
  note jn = inner_join_on_calendar_date [OF example_store_runs]
  have ne: "joined_rows to_date_yyyyMMdd example_store \<noteq> []"
    by (simp add: example_joined)
  have r: "rate (2023, 10, 20) 0 1010 \<in> set (Staging_Rates example_store)"
    by (simp add: example_store_tables)
  have no_news: "\<not> (\<exists>doc\<in>set (raw_gdelt_events example_store).
                     event_date to_date_yyyyMMdd doc = Some (to_date ((2023, 10, 20), 0)))"
    by (simp add: example_store_tables article_event_date to_date_def)
  have a: "\<not> (\<exists>g\<in>set (Gold_Analytics_RedSea (fst (transform_data_with_spark to_date_yyyyMMdd example_store))).
                to_date (full_date g) = to_date ((2023, 10, 20), 0))"
    using jn ne r rate_Date [of "(2023, 10, 20)" 0 1010] no_news by blast
  have doc: "article ''20231018'' (- 2) \<in> set (raw_gdelt_events example_store)"
    by (simp add: example_store_tables)
  have no_rate: "\<not> (\<exists>r\<in>set (Staging_Rates example_store). \<exists>ts. Date r = Some ts \<and> to_date ts = (2023, 10, 18))"
    by (simp add: example_store_tables rate_Date to_date_def)
  have b: "\<not> (\<exists>g\<in>set (Gold_Analytics_RedSea (fst (transform_data_with_spark to_date_yyyyMMdd example_store))).
                to_date (full_date g) = (2023, 10, 18))"
    using jn ne doc article_event_date(2) [of "- 2"] no_rate by blast
  have c: "Gold_Analytics_RedSea (fst (transform_data_with_spark to_date_yyyyMMdd example_store)) =
             joined_rows to_date_yyyyMMdd example_store"
    using jn ne by blast
  from a b c example_joined example_store_runs show ?thesis
    by (simp add: to_date_def)
qed

text \<open>
  C1 as stated fails: a run whose join is empty writes nothing, and a run whose plan
  raises writes nothing. In \<open>stale_gold_store\<close> there is no news document, so no
  aggregate; the rate hour 2023-10-20 00:00 has no aggregate of its date, the run reports
  that no dates match, and the gold table still holds its row of 2023-10-20 00:00. In
  \<open>seven_digit_store\<close> the rate hour 2023-10-19 00:00 and the article of 2023-10-19 are
  a pair of the same date, the parser raises on the other article, and the gold table
  has no row.
\<close>

theorem stale_gold_row_counterexample:
  "df_daily_news to_date_yyyyMMdd (raw_gdelt_events stale_gold_store) = []
   \<and> map Date (Staging_Rates stale_gold_store) = [Some ((2023, 10, 20), 0)]
   \<and> snd (transform_data_with_spark to_date_yyyyMMdd stale_gold_store) = NoMatchingDates
   \<and> map full_date
       (Gold_Analytics_RedSea (fst (transform_data_with_spark to_date_yyyyMMdd stale_gold_store))) =
     [((2023, 10, 20), 0)]
   \<and> map Date (Staging_Rates seven_digit_store) = [Some ((2023, 10, 19), 0)]
   \<and> map (event_date to_date_yyyyMMdd) (raw_gdelt_events seven_digit_store) =
       [None, Some (2023, 10, 19)]
   \<and> snd (transform_data_with_spark to_date_yyyyMMdd seven_digit_store) = SparkUpgradeException
   \<and> Gold_Analytics_RedSea (fst (transform_data_with_spark to_date_yyyyMMdd seven_digit_store)) = []"
proof -
  have "df_daily_news to_date_yyyyMMdd (raw_gdelt_events stale_gold_store) = []
   \<and> map Date (Staging_Rates stale_gold_store) = [Some ((2023, 10, 20), 0)]
   \<and> snd (transform_data_with_spark to_date_yyyyMMdd stale_gold_store) = NoMatchingDates
   \<and> map full_date
       (Gold_Analytics_RedSea (fst (transform_data_with_spark to_date_yyyyMMdd stale_gold_store))) =
     [((2023, 10, 20), 0)]"
    by (simp add: stale_gold_store_def transform_data_with_spark_def plan_raises_def
        df_daily_news_def df_final_def rate_def)
  moreover have "map Date (Staging_Rates seven_digit_store) = [Some ((2023, 10, 19), 0)]
   \<and> map (event_date to_date_yyyyMMdd) (raw_gdelt_events seven_digit_store) =
       [None, Some (2023, 10, 19)]"
    by (simp add: seven_digit_store_def rate_def event_date_def article_parse_day)
  moreover have "snd (transform_data_with_spark to_date_yyyyMMdd seven_digit_store) = SparkUpgradeException
   \<and> Gold_Analytics_RedSea (fst (transform_data_with_spark to_date_yyyyMMdd seven_digit_store)) = []"
    by (simp add: seven_digit_store_raises) (simp add: seven_digit_store_def)
  ultimately show ?thesis by blast
qed

lemma conflict_intensity_map:
  "map conflict_intensity docs = map (map_option (\<lambda>t. t * - 1)) (map doc_Tone docs)"
  by (simp add: conflict_intensity_def)

lemma joined_row_fields:
  assumes "g \<in> set (joined_rows p s)"
  shows "news_count g = length (day_docs p (raw_gdelt_events s) (to_date (full_date g)))"
    and "avg_conflict_score g =
           avg (map conflict_intensity (day_docs p (raw_gdelt_events s) (to_date (full_date g))))"
proof -
  from assms obtain r ts where "g = joined p (raw_gdelt_events s) r ts"
    unfolding joined_rows_def in_df_final_iff by blast
  then show "news_count g = length (day_docs p (raw_gdelt_events s) (to_date (full_date g)))"
    and "avg_conflict_score g =
           avg (map conflict_intensity (day_docs p (raw_gdelt_events s) (to_date (full_date g))))"
    by (simp_all add: joined_def)
qed

lemma Risk_Score_preprocess:
  "Risk_Score (preprocess g) =
     map_option (\<lambda>a. round2 (real (news_count g) * a)) (avg_conflict_score g)"
  by (simp add: preprocess_def risk_score_def option.map_comp comp_def)

lemma set_load_data: "set (load_data (Inr rows)) = preprocess ` set rows"
  by (simp add: load_data_def)

text \<open>
  C5 (as amended). In every row of the join, \<open>news_count\<close> is the number of that day's
  news documents and \<open>avg_conflict_score\<close> is the sign-inverted mean of their tones. The
  dashboard computes the risk score when it loads the table (the gold table has no such
  column): it is \<open>news_count * avg_conflict_score\<close> rounded to two decimals. For a day
  of 3 articles of mean tone -4 the row has \<open>news_count = 3\<close>,
  \<open>avg_conflict_score = 4\<close> and the risk score 12.
\<close>

theorem conflict_score_and_rounded_risk:
  assumes "g \<in> set (joined_rows p s)"
  shows "news_count g = length (day_docs p (raw_gdelt_events s) (to_date (full_date g)))
       \<and> avg_conflict_score g =
           map_option uminus (avg (map doc_Tone (day_docs p (raw_gdelt_events s) (to_date (full_date g)))))
       \<and> preprocess g \<in> set (load_data (Inr (joined_rows p s)))
       \<and> Risk_Score (preprocess g) =
           map_option (\<lambda>a. round2 (real (news_count g) * a)) (avg_conflict_score g)
       \<and> (length (day_docs p (raw_gdelt_events s) (to_date (full_date g))) = 3
            \<and> avg (map doc_Tone (day_docs p (raw_gdelt_events s) (to_date (full_date g)))) = Some (- 4)
          \<longrightarrow> news_count g = 3 \<and> avg_conflict_score g = Some 4
              \<and> Risk_Score (preprocess g) = Some 12)"
proof -
  let ?docs = "day_docs p (raw_gdelt_events s) (to_date (full_date g))"
  have n: "news_count g = length ?docs"
    using assms by (rule joined_row_fields(1))
  have a: "avg_conflict_score g = map_option uminus (avg (map doc_Tone ?docs))"
    using joined_row_fields(2) [OF assms] by (simp only: conflict_intensity_map avg_neg)
  have ld: "preprocess g \<in> set (load_data (Inr (joined_rows p s)))"
    using assms by (simp add: set_load_data)
  have r: "Risk_Score (preprocess g) =
           map_option (\<lambda>a. round2 (real (news_count g) * a)) (avg_conflict_score g)"
    by (rule Risk_Score_preprocess)
  have e: "news_count g = 3 \<and> avg_conflict_score g = Some 4 \<and> Risk_Score (preprocess g) = Some 12"
    if "length ?docs = 3" "avg (map doc_Tone ?docs) = Some (- 4)"
    using that n a r by (simp add: round2_def rint_def)
  from n a ld r e show ?thesis by blast
qed

theorem conflict_score_and_rounded_risk_witness:
  "example_gold_row \<in> set (joined_rows to_date_yyyyMMdd example_store)
   \<and> news_count example_gold_row = 3
   \<and> avg_conflict_score example_gold_row = Some 4
   \<and> Risk_Score (preprocess example_gold_row) = Some 12"
proof -
  have g: "example_gold_row \<in> set (joined_rows to_date_yyyyMMdd example_store)"
    by (simp add: example_joined)
  have d: "day_docs to_date_yyyyMMdd (raw_gdelt_events example_store) (to_date (full_date example_gold_row)) =
           [article ''20231019'' (- 3), article ''20231019'' (- 4), article ''20231019'' (- 5)]"
    by (simp add: day_docs_def example_store_tables example_gold_row_def to_date_def article_event_date)
  have l: "length (day_docs to_date_yyyyMMdd (raw_gdelt_events example_store) (to_date (full_date example_gold_row))) = 3"
    by (simp add: d)
  have m: "avg (map doc_Tone (day_docs to_date_yyyyMMdd (raw_gdelt_events example_store)
             (to_date (full_date example_gold_row)))) = Some (- 4)"
    by (simp add: d article_tone avg_def non_null_def)
  from conflict_score_and_rounded_risk [OF g] l m g show ?thesis by blast
qed

text \<open>
  C5 as stated fails: the risk score is rounded. Three articles of tone -0.004 give
  the gold row \<open>news_count = 3\<close>, \<open>avg_conflict_score = 0.004\<close>; the dashboard's risk
  score is 0.01, which is neither 3 * 0.004 nor 3 times the rounded score 0.
\<close>

theorem risk_score_is_rounded_counterexample:
  "joined_rows to_date_yyyyMMdd small_tone_store =
     [\<lparr>full_date = ((2023, 10, 19), 0), Price = Some 1000, news_count = 3,
       avg_conflict_score = Some (4 / 1000)\<rparr>]
   \<and> load_data (Inr (joined_rows to_date_yyyyMMdd small_tone_store)) =
     [\<lparr>full_date = ((2023, 10, 19), 0), Price = Some 1000, news_count = 3,
       avg_conflict_score = Some 0, Risk_Score = Some (1 / 100)\<rparr>]
   \<and> (1 / 100 :: real) \<noteq> 3 * (4 / 1000)
   \<and> (1 / 100 :: real) \<noteq> 3 * 0"
  by (simp add: small_tone_joined load_data_def preprocess_def risk_score_def round2_def rint_def)

subsection \<open>The news ingest\<close>



section \<open>Properties of the dashboard\<close>

lemma early_frame:
  "load_data (Inr early_gold) =
     [\<lparr>full_date = ((2023, 2, 1), 0), Price = Some 1000, news_count = 1,
       avg_conflict_score = Some 4, Risk_Score = Some 4\<rparr>]"
  by (simp add: load_data_def early_gold_def preprocess_def risk_score_def round2_def rint_def)

text \<open>
  C9. The default window is not always within the data: the two guards move the start
  up to the first date and the end down to the last date, and nothing moves the start
  down or the end up. For a gold table whose only row is of 2023-02-01 the default
  start stays 2023-11-15, after the last date of the data.
\<close>

theorem default_start_after_data:
  "min_date (load_data (Inr early_gold)) = (2023, 2, 1)
   \<and> max_date (load_data (Inr early_gold)) = (2023, 2, 1)
   \<and> default_window (load_data (Inr early_gold)) = Some ((2023, 11, 15), (2023, 2, 1))
   \<and> max_date (load_data (Inr early_gold)) < (2023, 11, 15)"
  by (simp add: early_frame default_window_def min_date_def max_date_def to_date_def Let_def
      less_prod_def)

text \<open>
  When the data reach into the default window (they begin by 2024-01-31 and end on or after
  2023-11-15), the default start and end do lie within the data.
\<close>

lemma to_date_mono: "a \<le> b \<Longrightarrow> to_date a \<le> to_date b"
  unfolding to_date_def using less_eq_prod_def [of a b] by (auto intro: less_imp_le simp del: less_eq_prod_simp)

lemma min_le_max_date: "df \<noteq> [] \<Longrightarrow> min_date df \<le> max_date df"
  unfolding min_date_def max_date_def
  by (intro to_date_mono) (simp add: Min_le_iff)

lemma default_window_in_bounds:
  assumes "df \<noteq> []" and "min_date df \<le> (2024, 1, 31)" and "(2023, 11, 15) \<le> max_date df"
    and "default_window df = Some (a, b)"
  shows "min_date df \<le> a \<and> a \<le> max_date df \<and> min_date df \<le> b \<and> b \<le> max_date df"
  using assms min_le_max_date [OF assms(1)]
  by (auto simp: default_window_def Let_def split: if_splits)

end
